theory Spec2Isabelle
  imports Main "HOL-Library.AList" "HOL-Library.Sublist"
begin

section \<open>Python string primitives\<close>

text \<open>
  Strings are lists of characters; a character stands for a code point below 256.
  The primitives below are the string methods the scripts call:
  \<^verbatim>\<open>str.strip()\<close>, \<^verbatim>\<open>str.rstrip("\n")\<close>, \<^verbatim>\<open>str.split(sep)\<close>,
  \<^verbatim>\<open>str.lower()\<close>, the substring test \<^verbatim>\<open>a in b\<close>, \<^verbatim>\<open>str(n)\<close> for a
  non-negative integer and \<^verbatim>\<open>int(s)\<close>.
\<close>

abbreviation TAB :: char where "TAB \<equiv> CHR 0x09"
abbreviation NL :: char where "NL \<equiv> CHR 0x0A"

text \<open>The characters \<^verbatim>\<open>str.isspace\<close> accepts among the code points below 256.\<close>

definition isspace :: "char \<Rightarrow> bool" where
  "isspace c = (c = CHR '' '' \<or> c = CHR 0x09 \<or> c = CHR 0x0A \<or> c = CHR 0x0B \<or> c = CHR 0x0C
     \<or> c = CHR 0x0D \<or> c = CHR 0x1C \<or> c = CHR 0x1D \<or> c = CHR 0x1E \<or> c = CHR 0x1F
     \<or> c = CHR 0x85 \<or> c = CHR 0xA0)"

definition lstrip :: "string \<Rightarrow> string" where
  "lstrip s = dropWhile isspace s"

definition rstrip :: "string \<Rightarrow> string" where
  "rstrip s = rev (dropWhile isspace (rev s))"

definition strip :: "string \<Rightarrow> string" where
  "strip s = rstrip (lstrip s)"

text \<open>\<^verbatim>\<open>line.rstrip("\n")\<close>: every trailing newline character goes.\<close>

definition rstrip_nl :: "string \<Rightarrow> string" where
  "rstrip_nl s = rev (dropWhile (\<lambda>c. c = NL) (rev s))"

text \<open>
  \<^verbatim>\<open>s.split(sep)\<close> with a one-character separator: the result is never empty, and
  the empty string gives one empty field.
\<close>

fun split :: "char \<Rightarrow> string \<Rightarrow> string list" where
  "split sep [] = [[]]"
| "split sep (c # cs) =
     (if c = sep then [] # split sep cs
      else (case split sep cs of [] \<Rightarrow> [[c]] | w # ws \<Rightarrow> (c # w) # ws))"

text \<open>
  \<^verbatim>\<open>s.lower()\<close> on the code points below 256: the ASCII capitals, and the capitals
  from U+00C0 to U+00DE except the multiplication sign U+00D7.
\<close>

definition lower_char :: "char \<Rightarrow> char" where
  "lower_char c =
     (let n = (of_char c :: nat) in
      if ((65::nat) \<le> n \<and> n \<le> 90) \<or> ((192::nat) \<le> n \<and> n \<le> 222 \<and> n \<noteq> 215)
      then char_of (n + 32) else c)"

definition lower :: "string \<Rightarrow> string" where
  "lower s = map lower_char s"

text \<open>\<^verbatim>\<open>sub in s\<close>.\<close>

fun contains :: "string \<Rightarrow> string \<Rightarrow> bool" where
  "contains sub [] = (sub = [])"
| "contains sub (c # cs) = (take (length sub) (c # cs) = sub \<or> contains sub cs)"

text \<open>\<^verbatim>\<open>str(n)\<close> for \<open>n \<ge> 0\<close>: the decimal digits, no leading zero.\<close>

definition digit_char :: "nat \<Rightarrow> char" where
  "digit_char d = char_of (48 + d)"

fun str :: "nat \<Rightarrow> string" where
  "str n = (if n < 10 then [digit_char n] else str (n div 10) @ [digit_char (n mod 10)])"

declare str.simps [simp del]

definition is_digit :: "char \<Rightarrow> bool" where
  "is_digit c = ((48::nat) \<le> of_char c \<and> of_char c \<le> (57::nat))"

definition digit_val :: "char \<Rightarrow> nat" where
  "digit_val c = of_char c - 48"

text \<open>
  \<^verbatim>\<open>int(s)\<close> in base 10. The whitespace it ignores at both ends is not that of
  \<^verbatim>\<open>str.strip\<close>: the ASCII characters space, tab, newline, vertical tab, form feed
  and carriage return, and the spaces U+0085 and U+00A0, but not the separators U+001C to
  U+001F. One sign is allowed, single underscores may stand between digits, and a
  string of more than 4300 digits is refused (the interpreter's default limit).
  \<open>None\<close> is the \<^verbatim>\<open>ValueError\<close>.
\<close>

definition int_space :: "char \<Rightarrow> bool" where
  "int_space c = (c = CHR '' '' \<or> c = CHR 0x09 \<or> c = CHR 0x0A \<or> c = CHR 0x0B \<or> c = CHR 0x0C
     \<or> c = CHR 0x0D \<or> c = CHR 0x85 \<or> c = CHR 0xA0)"

definition int_strip :: "string \<Rightarrow> string" where
  "int_strip s = rev (dropWhile int_space (rev (dropWhile int_space s)))"

fun digits_tail :: "string \<Rightarrow> bool" where
  "digits_tail [] = True"
| "digits_tail (c # cs) =
     (if is_digit c then digits_tail cs
      else if c = CHR ''_'' then (case cs of [] \<Rightarrow> False | d # ds \<Rightarrow> is_digit d \<and> digits_tail ds)
      else False)"

definition valid_digits :: "string \<Rightarrow> bool" where
  "valid_digits ds =
     (case ds of
        [] \<Rightarrow> False
      | c # cs \<Rightarrow> is_digit c \<and> digits_tail cs \<and> length (filter is_digit ds) \<le> 4300)"

definition digits_value :: "string \<Rightarrow> nat" where
  "digits_value ds = foldl (\<lambda>acc c. 10 * acc + digit_val c) 0 (filter is_digit ds)"

definition py_int :: "string \<Rightarrow> int option" where
  "py_int s =
     (case int_strip s of
        [] \<Rightarrow> None
      | c # cs \<Rightarrow>
          if c = CHR ''-'' then (if valid_digits cs then Some (- int (digits_value cs)) else None)
          else if c = CHR ''+'' then (if valid_digits cs then Some (int (digits_value cs)) else None)
          else (if valid_digits (c # cs) then Some (int (digits_value (c # cs))) else None))"

section \<open>mkyzx.py: feature transformation\<close>

definition OSES :: "string list" where
  "OSES = [''windows'', ''ios'', ''mac'', ''android'', ''linux'']"

definition BROWSERS :: "string list" where
  "BROWSERS = [''chrome'', ''sogou'', ''maxthon'', ''safari'', ''firefox'', ''theworld'', ''opera'', ''ie'']"

definition F1S :: "string list" where
  "F1S = [''weekday'', ''hour'', ''IP'', ''region'', ''city'', ''adexchange'', ''domain'',
          ''slotid'', ''slotwidth'', ''slotheight'', ''slotvisibility'', ''slotformat'',
          ''creative'', ''advertiser'']"

definition F1SP :: "string list" where
  "F1SP = [''useragent'', ''slotprice'']"

text \<open>The two \<^verbatim>\<open>for ... break\<close> loops of \<^verbatim>\<open>feat_trans\<close>: the first candidate that occurs.\<close>

definition first_match :: "string list \<Rightarrow> string \<Rightarrow> string" where
  "first_match cands content =
     (case List.find (\<lambda>cand. contains cand content) cands of None \<Rightarrow> ''other'' | Some cand \<Rightarrow> cand)"

definition feat_trans :: "string \<Rightarrow> string \<Rightarrow> string" where
  "feat_trans name content0 =
     (let content = lower content0 in
      if name = ''useragent'' then
        first_match OSES content @ ''_'' @ first_match BROWSERS content
      else if name = ''slotprice'' then
        (case py_int content of
           None \<Rightarrow> ''0''
         | Some price \<Rightarrow>
             if price > 100 then ''101+''
             else if price > 50 then ''51-100''
             else if price > 10 then ''11-50''
             else if price > 0 then ''1-10''
             else ''0'')
      else content)"

definition get_tags :: "string \<Rightarrow> string list" where
  "get_tags content =
     (if content = [NL] \<or> length content = 0 then [''null'']
      else split (CHR '','') (strip content))"

section \<open>Dictionaries and errors\<close>

text \<open>
  A Python \<^verbatim>\<open>dict\<close> keeps its keys in insertion order: it is an association list in
  which a key occurs once. \<^verbatim>\<open>d[k] = v\<close> overwrites the value of a key that is
  present, in place, and appends a new key at the end; \<^verbatim>\<open>k in d\<close> is
  \<open>map_of d k \<noteq> None\<close> and \<^verbatim>\<open>d[k]\<close> is \<open>map_of d k\<close>.
\<close>

type_synonym 'v dict = "(string \<times> 'v) list"

fun dict_set :: "string \<Rightarrow> 'v \<Rightarrow> 'v dict \<Rightarrow> 'v dict" where
  "dict_set k v [] = [(k, v)]"
| "dict_set k v (p # d) = (if fst p = k then (k, v) # d else p # dict_set k v d)"

text \<open>
  Every failure of the scripts is a \<^verbatim>\<open>ValueError\<close>; the constructors keep what the
  message is built from. For the two timestamp errors the message texts are
  \<^verbatim>\<open>Invalid timestamp format at line {line_num}: '{ts}' (expected at least 8 characters)\<close>
  and
  \<^verbatim>\<open>Failed to parse timestamp at line {line_num}: '{ts}' - {e}\<close>.
\<close>

datatype cause = BadInt string | BadDate int int int

datatype error =
    EmptyTrainingHeader
  | NoValidHeader
  | MissingTruncate
  | MissingField string
  | InvalidTimestampFormat nat string
  | FailedToParseTimestamp nat string cause
  | InvalidAdvertiserIndex int
  | EmptyInputHeader
  | EmbeddedNull string

text \<open>The message of a timestamp error, up to the text of the inner exception.\<close>

fun message_head :: "error \<Rightarrow> string" where
  "message_head (InvalidTimestampFormat n ts) =
     ''Invalid timestamp format at line '' @ str n @ '': '' @ [CHR 0x27] @ ts @ [CHR 0x27]
       @ '' (expected at least 8 characters)''"
| "message_head (FailedToParseTimestamp n ts c) =
     ''Failed to parse timestamp at line '' @ str n @ '': '' @ [CHR 0x27] @ ts @ [CHR 0x27] @ '' - ''"
| "message_head e = []"

section \<open>mkyzx.py: the feature index\<close>

text \<open>
  The three variables \<^verbatim>\<open>build_feature_index\<close> updates while it reads the training
  file. The file is the list of its lines, as iteration over the file object gives them.
\<close>

record fstate =
  namecol :: "nat dict"
  featindex :: "nat dict"
  maxindex :: nat

text \<open>Lines 80 to 85: the empty dictionaries, then \<^verbatim>\<open>"truncate"\<close> at \<^verbatim>\<open>maxindex = 0\<close>.\<close>

definition init_state :: fstate where
  "init_state = \<lparr>namecol = [], featindex = dict_set ''truncate'' 0 [], maxindex = 1\<rparr>"

text \<open>Lines 98 to 102: the loop over the header's columns, from position \<open>i\<close> on.\<close>

fun header_loop :: "string list \<Rightarrow> nat \<Rightarrow> fstate \<Rightarrow> fstate" where
  "header_loop [] i st = st"
| "header_loop (c # cs) i st =
     (let st1 = st\<lparr>namecol := dict_set (strip c) i (namecol st)\<rparr>;
          st2 = (if i > 0
                 then st1\<lparr>featindex := dict_set (str i @ '':other'') (maxindex st1) (featindex st1),
                          maxindex := maxindex st1 + 1\<rparr>
                 else st1)
      in header_loop cs (i + 1) st2)"

text \<open>\<^verbatim>\<open>if feat not in featindex: featindex[feat] = maxindex; maxindex += 1\<close>\<close>

definition add_feat :: "string \<Rightarrow> fstate \<Rightarrow> fstate" where
  "add_feat feat st =
     (if map_of (featindex st) feat = None
      then st\<lparr>featindex := dict_set feat (maxindex st) (featindex st), maxindex := maxindex st + 1\<rparr>
      else st)"

fun build_f1s :: "string list \<Rightarrow> string list \<Rightarrow> fstate \<Rightarrow> fstate" where
  "build_f1s [] s st = st"
| "build_f1s (f # fs) s st =
     (case map_of (namecol st) f of
        None \<Rightarrow> build_f1s fs s st
      | Some col \<Rightarrow>
          if col \<ge> length s then build_f1s fs s st
          else build_f1s fs s (add_feat (str col @ '':'' @ s ! col) st))"

fun build_f1sp :: "string list \<Rightarrow> string list \<Rightarrow> fstate \<Rightarrow> fstate" where
  "build_f1sp [] s st = st"
| "build_f1sp (f # fs) s st =
     (case map_of (namecol st) f of
        None \<Rightarrow> build_f1sp fs s st
      | Some col \<Rightarrow>
          if col \<ge> length s then build_f1sp fs s st
          else build_f1sp fs s (add_feat (str col @ '':'' @ feat_trans f (s ! col)) st))"

fun build_tags :: "nat \<Rightarrow> string list \<Rightarrow> fstate \<Rightarrow> fstate" where
  "build_tags col [] st = st"
| "build_tags col (tag # tags) st = build_tags col tags (add_feat (str col @ '':'' @ tag) st)"

definition build_usertag :: "string list \<Rightarrow> fstate \<Rightarrow> fstate" where
  "build_usertag s st =
     (case map_of (namecol st) ''usertag'' of
        None \<Rightarrow> st
      | Some col \<Rightarrow> if col < length s then build_tags col (get_tags (s ! col)) st else st)"

text \<open>One data line: lines 91 and 105 to 137.\<close>

definition build_row :: "string \<Rightarrow> fstate \<Rightarrow> fstate" where
  "build_row line st =
     (let s = split TAB (rstrip_nl line)
      in build_usertag s (build_f1sp F1SP s (build_f1s F1S s st)))"

fun build_rows :: "string list \<Rightarrow> fstate \<Rightarrow> fstate" where
  "build_rows [] st = st"
| "build_rows (line # lines) st = build_rows lines (build_row line st)"

text \<open>The state after the header line \<open>h\<close> has been processed.\<close>

definition after_header :: "string \<Rightarrow> fstate" where
  "after_header h = header_loop (split TAB (rstrip_nl h)) 0 init_state"

text \<open>
  \<^verbatim>\<open>build_feature_index\<close> on the lines of the training file. A file with no line
  leaves \<^verbatim>\<open>namecol\<close> empty and fails after the loop.
\<close>

definition build_feature_index :: "string list \<Rightarrow> error + (nat dict \<times> nat dict)" where
  "build_feature_index lines =
     (case lines of
        [] \<Rightarrow> Inl NoValidHeader
      | h # rows \<Rightarrow>
          let s = split TAB (rstrip_nl h) in
          if s = [] \<or> \<not> list_ex (\<lambda>col. strip col \<noteq> []) s then Inl EmptyTrainingHeader
          else
            let st = build_rows rows (header_loop s 0 init_state) in
            if namecol st = [] then Inl NoValidHeader
            else Inr (namecol st, featindex st))"

section \<open>mkyzx.py: the encoder\<close>

text \<open>
  Lines 206 to 211, the same for the three kinds of column: the key of the value, the
  column's \<^verbatim>\<open>other\<close> key when that one is not in the index, and one
  \<^verbatim>\<open>" {index}:1"\<close> written when the key that remains is in the index.
\<close>

definition emit :: "nat dict \<Rightarrow> nat \<Rightarrow> string \<Rightarrow> string" where
  "emit fi col content =
     (let feat = str col @ '':'' @ content;
          feat' = (if map_of fi feat = None then str col @ '':other'' else feat)
      in case map_of fi feat' of None \<Rightarrow> [] | Some index \<Rightarrow> '' '' @ str index @ '':1'')"

fun index_f1s :: "nat dict \<Rightarrow> nat dict \<Rightarrow> string list \<Rightarrow> string list \<Rightarrow> string" where
  "index_f1s nc fi [] s = []"
| "index_f1s nc fi (f # fs) s =
     (case map_of nc f of
        None \<Rightarrow> index_f1s nc fi fs s
      | Some col \<Rightarrow>
          if col \<ge> length s then index_f1s nc fi fs s
          else emit fi col (s ! col) @ index_f1s nc fi fs s)"

fun index_f1sp :: "nat dict \<Rightarrow> nat dict \<Rightarrow> string list \<Rightarrow> string list \<Rightarrow> string" where
  "index_f1sp nc fi [] s = []"
| "index_f1sp nc fi (f # fs) s =
     (case map_of nc f of
        None \<Rightarrow> index_f1sp nc fi fs s
      | Some col \<Rightarrow>
          if col \<ge> length s then index_f1sp nc fi fs s
          else emit fi col (feat_trans f (s ! col)) @ index_f1sp nc fi fs s)"

definition index_usertag :: "nat dict \<Rightarrow> nat dict \<Rightarrow> string list \<Rightarrow> string" where
  "index_usertag nc fi s =
     (case map_of nc ''usertag'' of
        None \<Rightarrow> []
      | Some col \<Rightarrow> if col < length s then concat (map (emit fi col) (get_tags (s ! col))) else [])"

text \<open>
  One line of the input after the header: nothing for a line of fewer than 24 fields,
  otherwise the text written for it. \<open>t\<close> is \<^verbatim>\<open>featindex["truncate"]\<close>.
\<close>

definition index_row :: "nat dict \<Rightarrow> nat dict \<Rightarrow> nat \<Rightarrow> string \<Rightarrow> string option" where
  "index_row nc fi t line =
     (let s = split TAB (rstrip_nl line) in
      if length s < 24 then None
      else
        let click = s ! 0;
            winning_price = (if length s > 23 then s ! 23 else ''0'')
        in Some (click @ '' '' @ winning_price @ '' '' @ str t @ '':1''
                 @ index_f1s nc fi F1S s @ index_f1sp nc fi F1SP s @ index_usertag nc fi s
                 @ [NL]))"

text \<open>\<^verbatim>\<open>index_file\<close>: the rows written to the output file, in order.\<close>

definition index_file :: "string list \<Rightarrow> nat dict \<Rightarrow> nat dict \<Rightarrow> error + string list" where
  "index_file lines nc fi =
     (case map_of fi ''truncate'' of
        None \<Rightarrow> Inl MissingTruncate
      | Some t \<Rightarrow> Inr (List.map_filter (index_row nc fi t) (tl lines)))"

section \<open>mkdata.py and mktest.py: the click join and the derived columns\<close>

text \<open>\<^verbatim>\<open>list.index\<close>: \<open>None\<close> is its \<^verbatim>\<open>ValueError\<close>. \<^verbatim>\<open>sep.join(xs)\<close>.\<close>

fun index_of :: "'a list \<Rightarrow> 'a \<Rightarrow> nat option" where
  "index_of [] x = None"
| "index_of (y # ys) x = (if y = x then Some 0 else map_option Suc (index_of ys x))"

fun join :: "string \<Rightarrow> string list \<Rightarrow> string" where
  "join sep [] = []"
| "join sep [x] = x"
| "join sep (x # y # ys) = x @ sep @ join sep (y # ys)"

text \<open>
  \<^verbatim>\<open>datetime.date(year, month, day)\<close> accepts the dates of the proleptic Gregorian
  calendar from year 1 to year 9999, and \<^verbatim>\<open>strftime("%w")\<close> numbers the weekdays
  from Sunday, 0: the day's ordinal modulo 7, since day 1 was a Monday.
\<close>

definition is_leap :: "int \<Rightarrow> bool" where
  "is_leap y = (y mod 4 = 0 \<and> (y mod 400 = 0 \<or> y mod 100 \<noteq> 0))"

definition days_in_month :: "int \<Rightarrow> int \<Rightarrow> int" where
  "days_in_month y m =
     (if m = 2 then (if is_leap y then 29 else 28)
      else if m = 4 \<or> m = 6 \<or> m = 9 \<or> m = 11 then 30
      else 31)"

definition valid_date :: "int \<Rightarrow> int \<Rightarrow> int \<Rightarrow> bool" where
  "valid_date y m d = (1 \<le> y \<and> y \<le> 9999 \<and> 1 \<le> m \<and> m \<le> 12 \<and> 1 \<le> d \<and> d \<le> days_in_month y m)"

definition days_before_year :: "int \<Rightarrow> int" where
  "days_before_year y = (y - 1) * 365 + (y - 1) div 4 - (y - 1) div 100 + (y - 1) div 400"

definition days_before_month :: "int \<Rightarrow> int \<Rightarrow> int" where
  "days_before_month y m = sum_list (map (\<lambda>k. days_in_month y (int k)) [1..<nat m])"

definition toordinal :: "int \<Rightarrow> int \<Rightarrow> int \<Rightarrow> int" where
  "toordinal y m d = days_before_year y + days_before_month y m + d"

definition strftime_w :: "int \<Rightarrow> int \<Rightarrow> int \<Rightarrow> nat" where
  "strftime_w y m d = nat (toordinal y m d mod 7)"

text \<open>
  The timestamp block, the same text in mkdata.py (lines 80 to 96) and mktest.py
  (lines 52 to 68): the length check, the three \<^verbatim>\<open>int\<close> calls, the date, the
  weekday and the hour.
\<close>

definition derive_time :: "nat \<Rightarrow> string \<Rightarrow> error + (nat \<times> string)" where
  "derive_time line_num ts =
     (if length ts < 8 then Inl (InvalidTimestampFormat line_num ts)
      else
        case py_int (take 4 ts) of
          None \<Rightarrow> Inl (FailedToParseTimestamp line_num ts (BadInt (take 4 ts)))
        | Some year \<Rightarrow>
            (case py_int (take 2 (drop 4 ts)) of
               None \<Rightarrow> Inl (FailedToParseTimestamp line_num ts (BadInt (take 2 (drop 4 ts))))
             | Some month \<Rightarrow>
                 (case py_int (take 2 (drop 6 ts)) of
                    None \<Rightarrow> Inl (FailedToParseTimestamp line_num ts (BadInt (take 2 (drop 6 ts))))
                  | Some day \<Rightarrow>
                      if valid_date year month day
                      then Inr (strftime_w year month day,
                                if length ts > 10 then take 2 (drop 8 ts) else ''00'')
                      else Inl (FailedToParseTimestamp line_num ts (BadDate year month day)))))"

text \<open>
  The first eight characters of a timestamp give a date: what the three \<^verbatim>\<open>int\<close> calls
  and \<^verbatim>\<open>date\<close> of the timestamp block accept.
\<close>

definition date_part_ok :: "string \<Rightarrow> bool" where
  "date_part_ok ts =
     (case py_int (take 4 ts) of
        None \<Rightarrow> False
      | Some y \<Rightarrow>
          (case py_int (take 2 (drop 4 ts)) of
             None \<Rightarrow> False
           | Some m \<Rightarrow>
               (case py_int (take 2 (drop 6 ts)) of
                  None \<Rightarrow> False
                | Some d \<Rightarrow> valid_date y m d)))"

text \<open>\<^verbatim>\<open>build_click_map\<close>: the files are the lists of their lines.\<close>

fun click_lines :: "nat \<Rightarrow> nat \<Rightarrow> string list \<Rightarrow> nat dict \<Rightarrow> nat dict" where
  "click_lines ci lcnt [] bmap = bmap"
| "click_lines ci lcnt (line # ls) bmap =
     (let arr = split TAB (rstrip_nl line)
      in click_lines ci (lcnt + 1) ls
           (if length arr > ci then dict_set (arr ! 0 @ ''-'' @ arr ! ci) lcnt bmap else bmap))"

fun click_files :: "nat \<Rightarrow> string list list \<Rightarrow> nat dict \<Rightarrow> nat dict" where
  "click_files ci [] bmap = bmap"
| "click_files ci (f # fs) bmap = click_files ci fs (click_lines ci 0 f bmap)"

definition build_click_map :: "string list list \<Rightarrow> nat \<Rightarrow> nat dict" where
  "build_click_map files creative_index = click_files creative_index files []"

text \<open>
  One impression line of mkdata.py: skipped (\<open>Inr None\<close>), failed, or retained with
  its click label, weekday and hour.
\<close>

definition mkdata_line ::
  "nat \<Rightarrow> nat \<Rightarrow> nat dict \<Rightarrow> nat \<Rightarrow> string \<Rightarrow> error + (string \<times> nat \<times> string) option" where
  "mkdata_line timestamp_index creative_index bmap line_num line =
     (let arr = split TAB (rstrip_nl line) in
      if length arr \<le> max timestamp_index creative_index then Inr None
      else
        let bid = arr ! 0 @ ''-'' @ arr ! creative_index;
            click = (if map_of bmap bid \<noteq> None then ''1'' else ''0'')
        in case derive_time line_num (arr ! timestamp_index) of
             Inl e \<Rightarrow> Inl e
           | Inr (weekday, hour) \<Rightarrow> Inr (Some (click, weekday, hour)))"

text \<open>\<^verbatim>\<open>fo.write(f"{click}\t{weekday}\t{hour}\t{line}")\<close>\<close>

definition write_row :: "string \<times> nat \<times> string \<Rightarrow> string \<Rightarrow> string" where
  "write_row d line =
     (case d of (click, weekday, hour) \<Rightarrow>
        click @ [TAB] @ str weekday @ [TAB] @ hour @ [TAB] @ line)"

text \<open>
  The loop of \<^verbatim>\<open>process_data\<close>: what has been written, and the error that stopped
  the loop, if one did.
\<close>

fun mkdata_loop ::
  "nat \<Rightarrow> nat \<Rightarrow> nat dict \<Rightarrow> nat \<Rightarrow> string list \<Rightarrow> string list \<times> error option" where
  "mkdata_loop ti ci bmap n [] = ([], None)"
| "mkdata_loop ti ci bmap n (line # ls) =
     (case mkdata_line ti ci bmap n line of
        Inl e \<Rightarrow> ([], Some e)
      | Inr None \<Rightarrow> mkdata_loop ti ci bmap (n + 1) ls
      | Inr (Some d) \<Rightarrow>
          (case mkdata_loop ti ci bmap (n + 1) ls of (out, e) \<Rightarrow> (write_row d line # out, e)))"

definition header_row :: "string list \<Rightarrow> string" where
  "header_row schema = ''click'' @ [TAB] @ ''weekday'' @ [TAB] @ ''hour'' @ [TAB] @ join [TAB] schema @ [NL]"

definition mkdata_process_data ::
  "string list \<Rightarrow> nat dict \<Rightarrow> string list \<Rightarrow> string list \<times> error option" where
  "mkdata_process_data schema bmap lines =
     (case index_of schema ''timestamp'' of
        None \<Rightarrow> ([], Some (MissingField ''timestamp''))
      | Some ti \<Rightarrow>
          (case index_of schema ''creative'' of
             None \<Rightarrow> ([], Some (MissingField ''creative''))
           | Some ci \<Rightarrow>
               (case mkdata_loop ti ci bmap 1 lines of (out, e) \<Rightarrow> (header_row schema # out, e))))"

text \<open>One line of mktest.py: the label is read off the last field but one.\<close>

definition mktest_line ::
  "nat \<Rightarrow> nat \<Rightarrow> string \<Rightarrow> error + (string \<times> nat \<times> string) option" where
  "mktest_line timestamp_index line_num line =
     (let arr = split TAB (rstrip_nl line) in
      if length arr < 2 then Inr None
      else
        let click = (if length arr \<ge> 2 \<and> arr ! (length arr - 2) = ''0'' then ''0'' else ''1'')
        in if length arr \<le> timestamp_index then Inr None
           else case derive_time line_num (arr ! timestamp_index) of
                  Inl e \<Rightarrow> Inl e
                | Inr (weekday, hour) \<Rightarrow> Inr (Some (click, weekday, hour)))"

fun mktest_loop :: "nat \<Rightarrow> nat \<Rightarrow> string list \<Rightarrow> string list \<times> error option" where
  "mktest_loop ti n [] = ([], None)"
| "mktest_loop ti n (line # ls) =
     (case mktest_line ti n line of
        Inl e \<Rightarrow> ([], Some e)
      | Inr None \<Rightarrow> mktest_loop ti (n + 1) ls
      | Inr (Some d) \<Rightarrow>
          (case mktest_loop ti (n + 1) ls of (out, e) \<Rightarrow> (write_row d line # out, e)))"

definition mktest_process_data :: "string list \<Rightarrow> string list \<Rightarrow> string list \<times> error option" where
  "mktest_process_data schema lines =
     (case index_of schema ''timestamp'' of
        None \<Rightarrow> ([], Some (MissingField ''timestamp''))
      | Some ti \<Rightarrow>
          (case mktest_loop ti 1 lines of (out, e) \<Rightarrow> (header_row schema # out, e)))"

section \<open>duckdb_pipeline.py: the derived columns of \<^verbatim>\<open>build_processed_table\<close>\<close>

text \<open>
  The SQL expressions the function builds, over nullable strings: \<open>None\<close> is
  \<^verbatim>\<open>NULL\<close>. A comparison with \<^verbatim>\<open>NULL\<close> is \<^verbatim>\<open>NULL\<close>, and \<^verbatim>\<open>CASE WHEN\<close> takes
  its \<^verbatim>\<open>ELSE\<close> branch unless the condition is true. \<^verbatim>\<open>TRIM\<close> removes the spaces
  at both ends, and \<^verbatim>\<open>substr(s, start, len)\<close> counts from 1.
\<close>

type_synonym sqlstr = "string option"

definition sql_trim :: "sqlstr \<Rightarrow> sqlstr" where
  "sql_trim v =
     map_option (\<lambda>s. rev (dropWhile (\<lambda>c. c = CHR '' '') (rev (dropWhile (\<lambda>c. c = CHR '' '') s)))) v"

definition sql_nullif :: "sqlstr \<Rightarrow> sqlstr \<Rightarrow> sqlstr" where
  "sql_nullif a b =
     (case a of None \<Rightarrow> None
      | Some x \<Rightarrow> (case b of None \<Rightarrow> a | Some y \<Rightarrow> if x = y then None else a))"

definition sql_eq :: "sqlstr \<Rightarrow> sqlstr \<Rightarrow> bool option" where
  "sql_eq a b = (case a of None \<Rightarrow> None | Some x \<Rightarrow> (case b of None \<Rightarrow> None | Some y \<Rightarrow> Some (x = y)))"

definition sql_length :: "sqlstr \<Rightarrow> nat option" where
  "sql_length a = map_option length a"

definition sql_ge :: "nat option \<Rightarrow> nat \<Rightarrow> bool option" where
  "sql_ge a n = map_option (\<lambda>k. k \<ge> n) a"

definition sql_substr :: "sqlstr \<Rightarrow> nat \<Rightarrow> nat \<Rightarrow> sqlstr" where
  "sql_substr a start len = map_option (\<lambda>s. take len (drop (start - 1) s)) a"

definition sql_case_when :: "bool option \<Rightarrow> 'a \<Rightarrow> 'a \<Rightarrow> 'a" where
  "sql_case_when c t e = (if c = Some True then t else e)"

definition sql_coalesce :: "sqlstr \<Rightarrow> sqlstr \<Rightarrow> sqlstr" where
  "sql_coalesce a b = (case a of None \<Rightarrow> b | Some x \<Rightarrow> Some x)"

text \<open>\<^verbatim>\<open>CASE WHEN NULLIF(TRIM(nclick), '') = '0' THEN '0' ELSE '1' END\<close>\<close>

definition click_expr :: "sqlstr \<Rightarrow> sqlstr" where
  "click_expr nclick_col =
     sql_case_when (sql_eq (sql_nullif (sql_trim nclick_col) (Some [])) (Some ''0''))
       (Some ''0'') (Some ''1'')"

text \<open>\<^verbatim>\<open>CASE WHEN length(ts) >= 10 THEN substr(ts, 9, 2) ELSE '00' END\<close>\<close>

definition hour_expr :: "sqlstr \<Rightarrow> sqlstr" where
  "hour_expr ts_col =
     sql_case_when (sql_ge (sql_length ts_col) 10) (sql_substr ts_col 9 2) (Some ''00'')"

text \<open>
  \<^verbatim>\<open>COALESCE(CAST(strftime('%w', try_strptime(ts, '%Y%m%d%H%M%S')) AS VARCHAR), '0')\<close>.
  The parameter \<open>parsed_w\<close> stands for the inner expression, the database's own
  parsing and formatting, which is \<^verbatim>\<open>NULL\<close> when the timestamp does not parse.
\<close>

definition weekday_expr :: "(sqlstr \<Rightarrow> sqlstr) \<Rightarrow> sqlstr \<Rightarrow> sqlstr" where
  "weekday_expr parsed_w ts_col = sql_coalesce (parsed_w ts_col) (Some ''0'')"

section \<open>splitadvertisers.py\<close>













section \<open>The invariant of the feature index\<close>

text \<open>
  What every step of \<^verbatim>\<open>build_feature_index\<close> keeps: a key occurs once, and the key
  inserted as number \<open>k\<close> has the id \<open>k\<close>, \<^verbatim>\<open>maxindex\<close> being the number of keys.
\<close>

definition index_ok :: "fstate \<Rightarrow> bool" where
  "index_ok st = (distinct (map fst (featindex st)) \<and> map snd (featindex st) = [0..<maxindex st])"

text \<open>
  How a later state of the build relates to an earlier one: the header's column map is
  the same, the index has only grown at its end, and the invariant has been kept.
\<close>

definition grows :: "fstate \<Rightarrow> fstate \<Rightarrow> bool" where
  "grows st st' =
     (namecol st' = namecol st \<and> prefix (featindex st) (featindex st')
      \<and> (index_ok st \<longrightarrow> index_ok st'))"

section \<open>Properties of the feature transformation\<close>

lemma slotprice_result:
  "feat_trans ''slotprice'' c =
     (case py_int (lower c) of
        None \<Rightarrow> ''0''
      | Some p \<Rightarrow> if p \<le> 0 then ''0'' else if p \<le> 10 then ''1-10'' else if p \<le> 50 then ''11-50''
                  else if p \<le> 100 then ''51-100'' else ''101+'')"
  by (simp add: feat_trans_def Let_def split: option.split)

lemma py_int_75: "py_int (lower ''75'') = Some 75"
  by code_simp

lemma py_int_decimal_point: "py_int (lower ''5.5'') = None"
  by code_simp

text \<open>
  C6. The slotprice transformation returns one of the five bucket names \<open>0\<close>,
  \<open>1-10\<close>, \<open>11-50\<close>, \<open>51-100\<close>, \<open>101+\<close>: the bucket of the integer the
  lower-cased value parses to, and \<open>0\<close> for a value \<^verbatim>\<open>int\<close> rejects. In particular
  0 gives \<open>0\<close>, 5 gives \<open>1-10\<close>, 30 gives \<open>11-50\<close>, 75 gives \<open>51-100\<close>, 150 gives
  \<open>101+\<close> and \<open>abc\<close> gives \<open>0\<close>.
\<close>

theorem slotprice_buckets:
  "feat_trans ''slotprice'' c \<in> {''0'', ''1-10'', ''11-50'', ''51-100'', ''101+''}
   \<and> (py_int (lower c) = None \<longrightarrow> feat_trans ''slotprice'' c = ''0'')
   \<and> (\<forall>p. py_int (lower c) = Some p \<longrightarrow>
          feat_trans ''slotprice'' c =
            (if p \<le> 0 then ''0'' else if p \<le> 10 then ''1-10'' else if p \<le> 50 then ''11-50''
             else if p \<le> 100 then ''51-100'' else ''101+''))
   \<and> feat_trans ''slotprice'' ''0'' = ''0''
   \<and> feat_trans ''slotprice'' ''5'' = ''1-10''
   \<and> feat_trans ''slotprice'' ''30'' = ''11-50''
   \<and> feat_trans ''slotprice'' ''75'' = ''51-100''
   \<and> feat_trans ''slotprice'' ''150'' = ''101+''
   \<and> feat_trans ''slotprice'' ''abc'' = ''0''"
proof -
  have bucket: "feat_trans ''slotprice'' c \<in> {''0'', ''1-10'', ''11-50'', ''51-100'', ''101+''}"
    by (simp add: slotprice_result split: option.split)
  have rejected: "py_int (lower c) = None \<longrightarrow> feat_trans ''slotprice'' c = ''0''"
    by (simp add: slotprice_result)
  have parsed: "\<forall>p. py_int (lower c) = Some p \<longrightarrow>
          feat_trans ''slotprice'' c =
            (if p \<le> 0 then ''0'' else if p \<le> 10 then ''1-10'' else if p \<le> 50 then ''11-50''
             else if p \<le> 100 then ''51-100'' else ''101+'')"
    by (simp add: slotprice_result)
  have e0: "feat_trans ''slotprice'' ''0'' = ''0''" by code_simp
  have e1: "feat_trans ''slotprice'' ''5'' = ''1-10''" by code_simp
  have e2: "feat_trans ''slotprice'' ''30'' = ''11-50''" by code_simp
  have e3: "feat_trans ''slotprice'' ''75'' = ''51-100''" by code_simp
  have e4: "feat_trans ''slotprice'' ''150'' = ''101+''" by code_simp
  have e5: "feat_trans ''slotprice'' ''abc'' = ''0''" by code_simp
  from bucket rejected parsed e0 e1 e2 e3 e4 e5 show ?thesis by blast
qed

theorem slotprice_buckets_witness:
  "py_int (lower ''75'') = Some 75 \<and> feat_trans ''slotprice'' ''75'' = ''51-100''
   \<and> py_int (lower ''5.5'') = None \<and> feat_trans ''slotprice'' ''5.5'' = ''0''"
  using slotprice_buckets [of "''75''"] slotprice_buckets [of "''5.5''"]
    py_int_75 py_int_decimal_point
  by simp

section \<open>Properties of dictionaries and of the usertag expansion\<close>

lemma dict_set_update: "dict_set k v d = AList.update k v d"
  by (induction d) auto

lemma dict_set_keys: "fst ` set (dict_set k v d) = insert k (fst ` set d)"
  by (simp add: dict_set_update dom_update)

lemma dict_set_fresh: "map_of d k = None \<Longrightarrow> dict_set k v d = d @ [(k, v)]"
  by (induction d) (auto split: if_splits)


lemma map_of_keys: "(map_of d k = None) = (k \<notin> fst ` set d)"
  by (simp add: map_of_eq_None_iff)

lemma add_feat_featindex:
  "featindex (add_feat feat st) =
     (if map_of (featindex st) feat = None then featindex st @ [(feat, maxindex st)] else featindex st)"
  by (simp add: add_feat_def dict_set_fresh)

lemma add_feat_maxindex:
  "maxindex (add_feat feat st) =
     (if map_of (featindex st) feat = None then maxindex st + 1 else maxindex st)"
  by (simp add: add_feat_def)

lemma add_feat_namecol: "namecol (add_feat feat st) = namecol st"
  by (simp add: add_feat_def)

lemma add_feat_keys: "fst ` set (featindex (add_feat feat st)) = insert feat (fst ` set (featindex st))"
  by (auto simp: add_feat_featindex map_of_keys)

lemma build_tags_keys:
  "fst ` set (featindex (build_tags col tags st)) =
     fst ` set (featindex st) \<union> (\<lambda>tag. str col @ '':'' @ tag) ` set tags"
  by (induction tags arbitrary: st) (auto simp: add_feat_keys)

lemma get_tags_example: "get_tags ''1,2,3'' = [''1'', ''2'', ''3'']"
  by code_simp

lemma build_tags_example:
  "featindex (build_tags 3 (get_tags ''1,2,3'') init_state) =
     [(''truncate'', 0), (''3:1'', 1), (''3:2'', 2), (''3:3'', 3)]"
  by code_simp

text \<open>
  C7, as amended. Usertag expansion splits the stripped field on commas. The empty value,
  and the value that is one newline character, yield the single tag \<open>null\<close>; any other
  value made of whitespace only yields the single empty tag. Every tag of the field gets
  the feature key made of the column index, a colon and the tag, distinct tags get
  distinct keys, and \<open>1,2,3\<close> yields three keys.
\<close>

theorem get_tags_expansion:
  "get_tags [] = [''null''] \<and> get_tags [NL] = [''null'']
   \<and> (content \<noteq> [] \<and> content \<noteq> [NL] \<longrightarrow> get_tags content = split (CHR '','') (strip content))
   \<and> (content \<noteq> [] \<and> content \<noteq> [NL] \<and> strip content = [] \<longrightarrow> get_tags content = [[]])
   \<and> get_tags ''1,2,3'' = [''1'', ''2'', ''3'']
   \<and> fst ` set (featindex (build_tags col (get_tags content) st)) =
       fst ` set (featindex st) \<union> (\<lambda>tag. str col @ '':'' @ tag) ` set (get_tags content)
   \<and> inj (\<lambda>tag. str col @ '':'' @ tag)
   \<and> featindex (build_tags 3 (get_tags ''1,2,3'') init_state) =
       [(''truncate'', 0), (''3:1'', 1), (''3:2'', 2), (''3:3'', 3)]"
proof -
  have empty: "get_tags [] = [''null'']"
    by (simp add: get_tags_def)
  have newline: "get_tags [NL] = [''null'']"
    by (simp add: get_tags_def)
  have general: "content \<noteq> [] \<and> content \<noteq> [NL] \<longrightarrow> get_tags content = split (CHR '','') (strip content)"
    by (simp add: get_tags_def)
  have blank: "content \<noteq> [] \<and> content \<noteq> [NL] \<and> strip content = [] \<longrightarrow> get_tags content = [[]]"
    by (simp add: get_tags_def)
  have inj: "inj (\<lambda>tag. str col @ '':'' @ tag)"
    by (simp add: inj_def)
  note keys = build_tags_keys [of col "get_tags content" st]
  from empty newline general blank get_tags_example keys inj build_tags_example
  show ?thesis by blast
qed

text \<open>The theorem at the value \<open>10,20\<close> in column 3.\<close>

theorem get_tags_expansion_witness:
  "get_tags ''10,20'' = [''10'', ''20'']
   \<and> fst ` set (featindex (build_tags 3 (get_tags ''10,20'') init_state)) =
       {''3:10'', ''3:20'', ''truncate''}
   \<and> get_tags ''  '' = [[]]"
proof -
  have a: "get_tags ''10,20'' = [''10'', ''20'']" by code_simp
  have b: "get_tags ''  '' = [[]]" by code_simp
  have c: "fst ` set (featindex init_state) = {''truncate''}" by (simp add: init_state_def)
  have d: "str 3 = ''3''" by code_simp
  have keys: "fst ` set (featindex (build_tags 3 (get_tags ''10,20'') init_state)) =
       fst ` set (featindex init_state) \<union> (\<lambda>tag. str 3 @ '':'' @ tag) ` set (get_tags ''10,20'')"
    using get_tags_expansion [of "''10,20''" 3 init_state] by blast
  have e: "fst ` set (featindex (build_tags 3 (get_tags ''10,20'') init_state)) =
       {''3:10'', ''3:20'', ''truncate''}"
    using keys by (simp add: a c d del: build_tags.simps)
  from a e b show ?thesis by blast
qed

text \<open>
  A usertag value of two spaces is not empty and not a newline: the tag is the empty
  string, and the key registered for it in column 1 is \<open>1:\<close>, not \<open>1:null\<close>.
\<close>

theorem usertag_whitespace_counterexample:
  "get_tags ''  '' = [[]] \<and> get_tags ''  '' \<noteq> [''null'']
   \<and> build_feature_index [''click'' @ [TAB] @ ''usertag'' @ [NL], ''1'' @ [TAB] @ ''  '' @ [NL]] =
       Inr ([(''click'', 0), (''usertag'', 1)], [(''truncate'', 0), (''1:other'', 1), (''1:'', 2)])"
proof -
  have a: "get_tags ''  '' = [[]]" by code_simp
  have b: "build_feature_index [''click'' @ [TAB] @ ''usertag'' @ [NL], ''1'' @ [TAB] @ ''  '' @ [NL]] =
       Inr ([(''click'', 0), (''usertag'', 1)], [(''truncate'', 0), (''1:other'', 1), (''1:'', 2)])"
    by code_simp
  show ?thesis unfolding a b by simp
qed

section \<open>Properties of \<^verbatim>\<open>str\<close> and of the header keys\<close>

lemma digit_char_is_digit: "d < 10 \<Longrightarrow> is_digit (digit_char d)"
  by (simp add: is_digit_def digit_char_def)

lemma digit_val_digit_char: "d < 10 \<Longrightarrow> digit_val (digit_char d) = d"
  by (simp add: digit_val_def digit_char_def)

lemma digits_value_snoc:
  "is_digit c \<Longrightarrow> digits_value (ds @ [c]) = 10 * digits_value ds + digit_val c"
  by (simp add: digits_value_def)

lemma digits_value_single: "is_digit c \<Longrightarrow> digits_value [c] = digit_val c"
  by (simp add: digits_value_def)

lemma digits_value_str: "digits_value (str n) = n"
proof (induction n rule: str.induct)
  case (1 n)
  show ?case
  proof (cases "n < 10")
    case True
    then show ?thesis
      by (subst str.simps) (simp add: digits_value_single digit_char_is_digit digit_val_digit_char)
  next
    case False
    have "n mod 10 < 10" by simp
    with False 1 show ?thesis
      by (subst str.simps) (simp add: digits_value_snoc digit_char_is_digit digit_val_digit_char)
  qed
qed

lemma str_inj: "str m = str n \<Longrightarrow> m = n"
  by (metis digits_value_str)

lemma str_zero: "str 0 = ''0''"
  by code_simp

lemma str_starts_with_digit: "\<exists>c cs. str n = c # cs \<and> is_digit c"
proof (induction n rule: str.induct)
  case (1 n)
  show ?case
  proof (cases "n < 10")
    case True
    then show ?thesis
      by (subst str.simps) (simp add: digit_char_is_digit)
  next
    case False
    with 1 obtain c cs where "str (n div 10) = c # cs" "is_digit c" by blast
    with False show ?thesis
      by (subst str.simps) simp
  qed
qed

lemma str_key_not_truncate: "str n @ s \<noteq> ''truncate''"
proof
  assume eq: "str n @ s = ''truncate''"
  obtain c cs where c: "str n = c # cs" "is_digit c"
    using str_starts_with_digit by blast
  from eq c have "c = CHR ''t''" by simp
  with c show False by (simp add: is_digit_def)
qed

lemma split_nonempty: "split sep s \<noteq> []"
  by (induction s) (auto split: list.splits)

lemma other_key_fresh:
  "map_of ((''truncate'', 0) # map (\<lambda>j. (str j @ '':other'', j)) [1..<i]) (str i @ '':other'') = None"
proof -
  have "str i @ '':other'' \<notin> (\<lambda>j. str j @ '':other'') ` {1..<i}"
    by (auto dest: str_inj)
  moreover have "str i @ '':other'' \<noteq> ''truncate''"
    by (rule str_key_not_truncate)
  ultimately show ?thesis
    by (simp add: map_of_keys image_image del: append.simps) 
qed

lemma header_loop_featindex:
  "1 \<le> i \<Longrightarrow>
   featindex st = (''truncate'', 0) # map (\<lambda>j. (str j @ '':other'', j)) [1..<i] \<Longrightarrow>
   maxindex st = i \<Longrightarrow>
   featindex (header_loop cs i st) =
     (''truncate'', 0) # map (\<lambda>j. (str j @ '':other'', j)) [1..<i + length cs]
   \<and> maxindex (header_loop cs i st) = i + length cs"
proof (induction cs arbitrary: i st)
  case Nil
  then show ?case by simp
next
  case (Cons c cs)
  let ?st2 = "st\<lparr>namecol := dict_set (strip c) i (namecol st),
                featindex := dict_set (str i @ '':other'') (maxindex st) (featindex st),
                maxindex := maxindex st + 1\<rparr>"
  have fresh: "map_of (featindex st) (str i @ '':other'') = None"
    using Cons.prems(2) other_key_fresh [of i] by simp
  have fi: "featindex ?st2 = (''truncate'', 0) # map (\<lambda>j. (str j @ '':other'', j)) [1..<Suc i]"
    using Cons.prems fresh by (simp add: dict_set_fresh)
  have mi: "maxindex ?st2 = Suc i"
    using Cons.prems by simp
  have step: "header_loop (c # cs) i st = header_loop cs (Suc i) ?st2"
    using Cons.prems(1) by (simp add: Let_def)
  from Cons.IH [of "Suc i" ?st2] fi mi show ?case
    unfolding step by simp
qed

lemma after_header_featindex:
  "featindex (after_header h) =
     (''truncate'', 0) # map (\<lambda>j. (str j @ '':other'', j)) [1..<length (split TAB (rstrip_nl h))]
   \<and> maxindex (after_header h) = length (split TAB (rstrip_nl h))"
proof -
  obtain c cs where s: "split TAB (rstrip_nl h) = c # cs"
    using split_nonempty [of TAB "rstrip_nl h"] by (cases "split TAB (rstrip_nl h)") auto
  let ?st1 = "init_state\<lparr>namecol := dict_set (strip c) 0 (namecol init_state)\<rparr>"
  have step: "header_loop (c # cs) 0 init_state = header_loop cs 1 ?st1"
    by (simp add: Let_def)
  have "featindex ?st1 = (''truncate'', 0) # map (\<lambda>j. (str j @ '':other'', j)) [1..<1]"
    by (simp add: init_state_def)
  moreover have "maxindex ?st1 = 1"
    by (simp add: init_state_def)
  ultimately have "featindex (header_loop cs 1 ?st1) =
       (''truncate'', 0) # map (\<lambda>j. (str j @ '':other'', j)) [1..<1 + length cs]
     \<and> maxindex (header_loop cs 1 ?st1) = 1 + length cs"
    by (intro header_loop_featindex) simp_all
  then show ?thesis
    unfolding after_header_def s step by simp
qed

lemma after_header_ok: "index_ok (after_header h)"
proof -
  let ?n = "length (split TAB (rstrip_nl h))"
  have pos: "0 < ?n" using split_nonempty [of TAB "rstrip_nl h"] by simp
  have keys: "distinct (map (\<lambda>j. str j @ '':other'') [1..<?n])"
    by (auto simp: distinct_map inj_on_def dest: str_inj)
  have notrunc: "''truncate'' \<notin> (\<lambda>j. str j @ '':other'') ` {1..<?n}"
    using str_key_not_truncate by (metis (no_types, lifting) imageE)
  have ids: "0 # [1..<?n] = [0..<?n]"
    using pos by (simp add: upt_conv_Cons)
  show ?thesis
    unfolding index_ok_def
    using keys notrunc ids by (simp add: after_header_featindex comp_def del: upt.simps)
qed

lemma add_feat_ok: "index_ok st \<Longrightarrow> index_ok (add_feat feat st)"
  by (auto simp: index_ok_def add_feat_featindex add_feat_maxindex map_of_keys)

lemma add_feat_prefix: "prefix (featindex st) (featindex (add_feat feat st))"
  by (simp add: add_feat_featindex)

section \<open>The build keeps the invariant\<close>

lemma grows_refl: "grows st st"
  by (simp add: grows_def)

lemma grows_trans: "grows a b \<Longrightarrow> grows b c \<Longrightarrow> grows a c"
  unfolding grows_def by (auto intro: prefix_order.order_trans)

lemma add_feat_grows: "grows st (add_feat feat st)"
  by (simp add: grows_def add_feat_namecol add_feat_prefix add_feat_ok)

lemma build_f1s_grows: "grows st (build_f1s fs s st)"
proof (induction fs arbitrary: st)
  case Nil
  show ?case by (simp add: grows_refl)
next
  case (Cons f fs)
  show ?case
  proof (cases "map_of (namecol st) f")
    case None
    then show ?thesis using Cons.IH [of st] by simp
  next
    case (Some col)
    show ?thesis
    proof (cases "col \<ge> length s")
      case True
      then show ?thesis using Some Cons.IH [of st] by simp
    next
      case False
      have "grows st (build_f1s fs s (add_feat (str col @ '':'' @ s ! col) st))"
        by (rule grows_trans [OF add_feat_grows Cons.IH])
      then show ?thesis using Some False by simp
    qed
  qed
qed

lemma build_f1sp_grows: "grows st (build_f1sp fs s st)"
proof (induction fs arbitrary: st)
  case Nil
  show ?case by (simp add: grows_refl)
next
  case (Cons f fs)
  show ?case
  proof (cases "map_of (namecol st) f")
    case None
    then show ?thesis using Cons.IH [of st] by simp
  next
    case (Some col)
    show ?thesis
    proof (cases "col \<ge> length s")
      case True
      then show ?thesis using Some Cons.IH [of st] by simp
    next
      case False
      have "grows st (build_f1sp fs s (add_feat (str col @ '':'' @ feat_trans f (s ! col)) st))"
        by (rule grows_trans [OF add_feat_grows Cons.IH])
      then show ?thesis using Some False by simp
    qed
  qed
qed

lemma build_tags_grows: "grows st (build_tags col tags st)"
proof (induction tags arbitrary: st)
  case Nil
  show ?case by (simp add: grows_refl)
next
  case (Cons tag tags)
  have "grows st (build_tags col tags (add_feat (str col @ '':'' @ tag) st))"
    by (rule grows_trans [OF add_feat_grows Cons.IH])
  then show ?case by simp
qed

lemma build_usertag_grows: "grows st (build_usertag s st)"
  by (simp add: build_usertag_def grows_refl build_tags_grows split: option.split)

lemma build_row_grows: "grows st (build_row line st)"
  unfolding build_row_def Let_def
  by (rule grows_trans [OF build_f1s_grows grows_trans [OF build_f1sp_grows build_usertag_grows]])

lemma build_rows_grows: "grows st (build_rows lines st)"
proof (induction lines arbitrary: st)
  case Nil
  show ?case by (simp add: grows_refl)
next
  case (Cons line lines)
  have "grows st (build_rows lines (build_row line st))"
    by (rule grows_trans [OF build_row_grows Cons.IH])
  then show ?case by simp
qed

lemma build_feature_index_final:
  "build_feature_index (h # rows) = Inr (nc, fi) \<Longrightarrow>
   nc = namecol (build_rows rows (after_header h)) \<and> fi = featindex (build_rows rows (after_header h))"
  by (simp add: build_feature_index_def after_header_def Let_def split: if_splits)

lemma prefix_lookup:
  "prefix xs ys \<Longrightarrow> map_of xs k = Some v \<Longrightarrow> map_of ys k = Some v"
  by (auto simp: prefix_def)

section \<open>The shape of the feature index\<close>

lemma build_final_ok:
  "index_ok (build_rows rows (after_header h))
   \<and> prefix (featindex (after_header h)) (featindex (build_rows rows (after_header h)))
   \<and> namecol (build_rows rows (after_header h)) = namecol (after_header h)"
  using build_rows_grows [of "after_header h" rows] after_header_ok [of h]
  by (simp add: grows_def)

lemma ids_injective:
  "distinct (map snd xs) \<Longrightarrow> (k, v) \<in> set xs \<Longrightarrow> (k', v) \<in> set xs \<Longrightarrow> k = k'"
proof -
  assume d: "distinct (map snd xs)" and a: "(k, v) \<in> set xs" and b: "(k', v) \<in> set xs"
  from d have "inj_on snd (set xs)" by (simp add: distinct_map)
  from inj_onD [OF this _ a b] show "k = k'" by simp
qed

lemma lookup_injective_keys:
  "inj f \<Longrightarrow> i \<in> set xs \<Longrightarrow> map_of (map (\<lambda>j. (f j, j)) xs) (f i) = Some i"
  by (induction xs) (auto simp: inj_def)

lemma other_key_inj: "inj (\<lambda>j. str j @ '':other'')"
  by (auto simp: inj_def dest: str_inj)

lemma header_other_lookup:
  "1 \<le> i \<Longrightarrow> i < length (split TAB (rstrip_nl h)) \<Longrightarrow>
   map_of (featindex (after_header h)) (str i @ '':other'') = Some i"
proof -
  assume i: "1 \<le> i" "i < length (split TAB (rstrip_nl h))"
  have ne: "str i @ '':other'' \<noteq> ''truncate''" by (rule str_key_not_truncate)
  have "map_of (map (\<lambda>j. (str j @ '':other'', j)) [1..<length (split TAB (rstrip_nl h))])
          (str i @ '':other'') = Some i"
    using i by (intro lookup_injective_keys [OF other_key_inj]) simp
  then show ?thesis
    using ne by (simp add: after_header_featindex del: upt.simps)
qed

lemma header_no_zero_other:
  "map_of (featindex (after_header h)) ''0:other'' = None"
proof -
  have "''0:other'' \<notin> (\<lambda>j. str j @ '':other'') ` {1..<length (split TAB (rstrip_nl h))}"
  proof
    assume "''0:other'' \<in> (\<lambda>j. str j @ '':other'') ` {1..<length (split TAB (rstrip_nl h))}"
    then obtain j where j: "1 \<le> j" "str j @ '':other'' = ''0'' @ '':other''" by auto
    then have "str j = str 0" by (simp only: append_same_eq str_zero)
    then have "j = 0" by (rule str_inj)
    with j show False by simp
  qed
  then show ?thesis
    by (simp add: map_of_keys after_header_featindex image_image del: upt.simps)
qed

lemma late_key_id:
  assumes "prefix xs ys" "map snd ys = [0..<length ys]" "map_of xs k = None" "map_of ys k = Some v"
  shows "length xs \<le> v"
proof -
  from assms(1) obtain zs where ys: "ys = xs @ zs" by (auto simp: prefix_def)
  from assms(3,4) have "map_of zs k = Some v" by (simp add: ys map_add_Some_iff)
  then have "(k, v) \<in> set zs" by (rule map_of_SomeD)
  then obtain j where j: "j < length zs" "zs ! j = (k, v)" by (auto simp: in_set_conv_nth)
  then have "ys ! (length xs + j) = (k, v)" by (simp add: ys nth_append)
  moreover have "length xs + j < length ys" using j by (simp add: ys)
  ultimately have "map snd ys ! (length xs + j) = v" by simp
  moreover have "[0..<length ys] ! (length xs + j) = length xs + j"
    using \<open>length xs + j < length ys\<close> by simp
  ultimately show ?thesis using assms(2) by simp
qed

text \<open>
  C10. When \<^verbatim>\<open>build_feature_index\<close> returns, every key of the feature index occurs once,
  the key inserted as number \<open>k\<close> has the id \<open>k\<close> (the ids are \<open>0\<close> to \<open>size - 1\<close> in
  insertion order), and no two keys share an id. Every header column at a position
  \<open>i \<ge> 1\<close>, categorical or not, has the key \<open>i:other\<close>, with the id \<open>i\<close>. The header
  registers no such key for position 0: the index after the header has no \<open>0:other\<close>, and
  a key \<open>0:other\<close> of the final index can only be the key of a value read from a data
  row, its id lying after the header's block.
\<close>

theorem feature_index_shape:
  assumes "build_feature_index (h # rows) = Inr (nc, fi)"
  shows "distinct (map fst fi)
       \<and> map snd fi = [0..<length fi]
       \<and> (\<forall>k k' v. map_of fi k = Some v \<and> map_of fi k' = Some v \<longrightarrow> k = k')
       \<and> (\<forall>i. 1 \<le> i \<and> i < length (split TAB (rstrip_nl h)) \<longrightarrow>
            map_of fi (str i @ '':other'') = Some i)
       \<and> map_of (featindex (after_header h)) ''0:other'' = None
       \<and> (\<forall>v. map_of fi ''0:other'' = Some v \<longrightarrow> length (split TAB (rstrip_nl h)) \<le> v)"
proof -
  let ?final = "build_rows rows (after_header h)"
  let ?n = "length (split TAB (rstrip_nl h))"
  have fi: "fi = featindex ?final"
    using build_feature_index_final [OF assms] by simp
  have ok: "index_ok ?final" and pre: "prefix (featindex (after_header h)) fi"
    using build_final_ok [of rows h] by (simp_all add: fi)
  have dist: "distinct (map fst fi)"
    using ok by (simp add: index_ok_def fi)
  have "map snd fi = [0..<maxindex ?final]"
    using ok by (simp add: index_ok_def fi)
  moreover from this have "length fi = maxindex ?final"
    by (metis length_map length_upt diff_zero)
  ultimately have ids: "map snd fi = [0..<length fi]" by simp
  have inj: "\<forall>k k' v. map_of fi k = Some v \<and> map_of fi k' = Some v \<longrightarrow> k = k'"
  proof (intro allI impI)
    fix k k' v
    assume "map_of fi k = Some v \<and> map_of fi k' = Some v"
    then have "(k, v) \<in> set fi" "(k', v) \<in> set fi" by (auto dest: map_of_SomeD)
    moreover have "distinct (map snd fi)" by (simp add: ids)
    ultimately show "k = k'" by (rule ids_injective [rotated])
  qed
  have others: "\<forall>i. 1 \<le> i \<and> i < ?n \<longrightarrow> map_of fi (str i @ '':other'') = Some i"
    using prefix_lookup [OF pre] header_other_lookup [of _ h] by blast
  have n_pos: "0 < ?n" using split_nonempty [of TAB "rstrip_nl h"] by simp
  have len: "length (featindex (after_header h)) = ?n"
    using n_pos by (simp add: after_header_featindex)
  have late: "\<forall>v. map_of fi ''0:other'' = Some v \<longrightarrow> ?n \<le> v"
    using late_key_id [OF pre ids header_no_zero_other] len by simp
  from dist ids inj others header_no_zero_other late show ?thesis by blast
qed


lemma shape_example_build:
  "build_feature_index
     [''click'' @ [TAB] @ ''weekday'' @ [TAB] @ ''bidid'' @ [NL],
      ''1'' @ [TAB] @ ''3'' @ [TAB] @ ''abc'' @ [NL]] =
   Inr ([(''click'', 0), (''weekday'', 1), (''bidid'', 2)],
        [(''truncate'', 0), (''1:other'', 1), (''2:other'', 2), (''1:3'', 3)])"
  by code_simp

lemma shape_example_header:
  "length (split TAB (rstrip_nl (''click'' @ [TAB] @ ''weekday'' @ [TAB] @ ''bidid'' @ [NL]))) = 3"
  by code_simp

lemma str_two: "str 2 = ''2''"
  by code_simp

text \<open>The theorem on a training file of three columns and one data row.\<close>

theorem feature_index_shape_witness:
  "build_feature_index
     [''click'' @ [TAB] @ ''weekday'' @ [TAB] @ ''bidid'' @ [NL],
      ''1'' @ [TAB] @ ''3'' @ [TAB] @ ''abc'' @ [NL]] =
   Inr ([(''click'', 0), (''weekday'', 1), (''bidid'', 2)],
        [(''truncate'', 0), (''1:other'', 1), (''2:other'', 2), (''1:3'', 3)])
   \<and> map_of [(''truncate'', 0), (''1:other'', 1), (''2:other'', 2), (''1:3'', 3::nat)]
        (str 2 @ '':other'') = Some 2"
proof -
  note shape = feature_index_shape [OF shape_example_build]
  from shape have "\<forall>i. 1 \<le> i \<and> i < length (split TAB
        (rstrip_nl (''click'' @ [TAB] @ ''weekday'' @ [TAB] @ ''bidid'' @ [NL]))) \<longrightarrow>
      map_of [(''truncate'', 0), (''1:other'', 1), (''2:other'', 2), (''1:3'', 3::nat)]
        (str i @ '':other'') = Some i"
    by blast
  then have "map_of [(''truncate'', 0), (''1:other'', 1), (''2:other'', 2), (''1:3'', 3::nat)]
        (str 2 @ '':other'') = Some 2"
    unfolding shape_example_header by simp
  with shape_example_build show ?thesis by blast
qed

section \<open>The encoder: the fallback and the bias feature\<close>







lemma map_filter_member:
  "y \<in> set (List.map_filter f xs) \<Longrightarrow> \<exists>x \<in> set xs. f x = Some y"
  by (auto simp: List.map_filter_def)

text \<open>
  C2. \<^verbatim>\<open>build_feature_index\<close> returns an index whose first key is \<open>truncate\<close>, with
  the id 0. Every row \<^verbatim>\<open>index_file\<close> writes is the label, a space, the weight, a
  space, and then the pair of the id of \<open>truncate\<close>, before any other pair.
\<close>

theorem truncate_first:
  "(build_feature_index train = Inr (nc, fi) \<longrightarrow>
      (\<exists>rest. fi = (''truncate'', 0) # rest) \<and> map_of fi ''truncate'' = Some 0)
   \<and> (index_file lines nc' fi' = Inr out \<and> row \<in> set out \<longrightarrow>
        (\<exists>t line rest. map_of fi' ''truncate'' = Some t \<and> line \<in> set (tl lines)
           \<and> row = split TAB (rstrip_nl line) ! 0 @ '' '' @ split TAB (rstrip_nl line) ! 23
                   @ '' '' @ str t @ '':1'' @ rest))"
proof -
  have build: "build_feature_index train = Inr (nc, fi) \<longrightarrow>
      (\<exists>rest. fi = (''truncate'', 0) # rest) \<and> map_of fi ''truncate'' = Some 0"
  proof
    assume b: "build_feature_index train = Inr (nc, fi)"
    then obtain h rows where train: "train = h # rows"
      by (cases train) (simp_all add: build_feature_index_def)
    have "prefix (featindex (after_header h)) fi"
      using build_feature_index_final [OF b [unfolded train]] build_final_ok [of rows h] by simp
    then obtain ext where "fi = featindex (after_header h) @ ext"
      by (auto simp: prefix_def)
    then have "fi = (''truncate'', 0) #
        (map (\<lambda>j. (str j @ '':other'', j)) [1..<length (split TAB (rstrip_nl h))] @ ext)"
      by (simp add: after_header_featindex del: upt.simps)
    then show "(\<exists>rest. fi = (''truncate'', 0) # rest) \<and> map_of fi ''truncate'' = Some 0"
      by auto
  qed
  have encode: "index_file lines nc' fi' = Inr out \<and> row \<in> set out \<longrightarrow>
        (\<exists>t line rest. map_of fi' ''truncate'' = Some t \<and> line \<in> set (tl lines)
           \<and> row = split TAB (rstrip_nl line) ! 0 @ '' '' @ split TAB (rstrip_nl line) ! 23
                   @ '' '' @ str t @ '':1'' @ rest)"
  proof
    assume a: "index_file lines nc' fi' = Inr out \<and> row \<in> set out"
    then obtain t where t: "map_of fi' ''truncate'' = Some t"
      and out: "out = List.map_filter (index_row nc' fi' t) (tl lines)"
      by (auto simp: index_file_def split: option.splits)
    from a out obtain line where line: "line \<in> set (tl lines)" "index_row nc' fi' t line = Some row"
      using map_filter_member by fastforce
    let ?s = "split TAB (rstrip_nl line)"
    from line(2) have "row = ?s ! 0 @ '' '' @ ?s ! 23 @ '' '' @ str t @ '':1''
        @ (index_f1s nc' fi' F1S ?s @ index_f1sp nc' fi' F1SP ?s @ index_usertag nc' fi' ?s @ [NL])"
      by (simp add: index_row_def Let_def split: if_splits)
    with t line(1) show "\<exists>t line rest. map_of fi' ''truncate'' = Some t \<and> line \<in> set (tl lines)
           \<and> row = split TAB (rstrip_nl line) ! 0 @ '' '' @ split TAB (rstrip_nl line) ! 23
                   @ '' '' @ str t @ '':1'' @ rest"
      by blast
  qed
  from build encode show ?thesis by blast
qed


lemma str_one: "str 1 = ''1''"
  by code_simp




lemma truncate_example_encode:
  "index_file
     [''header'',
      join [TAB] [''1'', ''9'', ''abc'', ''x'', ''x'', ''x'', ''x'', ''x'', ''x'', ''x'', ''x'', ''x'',
                  ''x'', ''x'', ''x'', ''x'', ''x'', ''x'', ''x'', ''x'', ''x'', ''x'', ''x'', ''77'']
        @ [NL]]
     [(''click'', 0), (''weekday'', 1), (''bidid'', 2)]
     [(''truncate'', 0), (''1:other'', 1), (''2:other'', 2), (''1:3'', 3)]
   = Inr [''1 77 0:1 1:1'' @ [NL]]"
  by code_simp

text \<open>The theorem on the same training file and a test file of one row of 24 fields.\<close>

theorem truncate_first_witness:
  "map_of [(''truncate'', 0), (''1:other'', 1), (''2:other'', 2), (''1:3'', 3::nat)] ''truncate'' = Some 0
   \<and> (\<exists>t line rest.
        map_of [(''truncate'', 0), (''1:other'', 1), (''2:other'', 2), (''1:3'', 3::nat)] ''truncate''
          = Some t
        \<and> ''1 77 0:1 1:1'' @ [NL] =
            split TAB (rstrip_nl line) ! 0 @ '' '' @ split TAB (rstrip_nl line) ! 23
              @ '' '' @ str t @ '':1'' @ rest)"
proof -
  note inst = truncate_first [of
      "[''click'' @ [TAB] @ ''weekday'' @ [TAB] @ ''bidid'' @ [NL],
        ''1'' @ [TAB] @ ''3'' @ [TAB] @ ''abc'' @ [NL]]"
      "[(''click'', 0), (''weekday'', 1), (''bidid'', 2)]"
      "[(''truncate'', 0), (''1:other'', 1), (''2:other'', 2), (''1:3'', 3)]"
      "[''header'',
        join [TAB] [''1'', ''9'', ''abc'', ''x'', ''x'', ''x'', ''x'', ''x'', ''x'', ''x'', ''x'', ''x'',
                    ''x'', ''x'', ''x'', ''x'', ''x'', ''x'', ''x'', ''x'', ''x'', ''x'', ''x'', ''77'']
          @ [NL]]"
      "[(''click'', 0), (''weekday'', 1), (''bidid'', 2)]"
      "[(''truncate'', 0), (''1:other'', 1), (''2:other'', 2), (''1:3'', 3)]"
      "[''1 77 0:1 1:1'' @ [NL]]"
      "''1 77 0:1 1:1'' @ [NL]"]
  have member: "''1 77 0:1 1:1'' @ [NL] \<in> set [''1 77 0:1 1:1'' @ [NL]]"
    by simp
  from inst shape_example_build truncate_example_encode member show ?thesis
    by blast
qed

section \<open>mkdata.py: the click label\<close>

lemma click_lines_keys:
  "fst ` set (click_lines ci n ls bmap) =
     fst ` set bmap \<union>
     {a ! 0 @ ''-'' @ a ! ci | a. \<exists>l \<in> set ls. a = split TAB (rstrip_nl l) \<and> ci < length a}"
proof (induction ls arbitrary: n bmap)
  case Nil
  show ?case by simp
next
  case (Cons line ls)
  show ?case
    by (simp add: Let_def Cons.IH dict_set_keys) blast
qed

lemma click_files_keys:
  "fst ` set (click_files ci files bmap) =
     fst ` set bmap \<union>
     {a ! 0 @ ''-'' @ a ! ci | a.
        \<exists>f \<in> set files. \<exists>l \<in> set f. a = split TAB (rstrip_nl l) \<and> ci < length a}"
proof (induction files arbitrary: bmap)
  case Nil
  show ?case by simp
next
  case (Cons f files)
  show ?case
    by (simp add: Cons.IH click_lines_keys) blast
qed

lemma build_click_map_keys:
  "fst ` set (build_click_map files ci) =
     {a ! 0 @ ''-'' @ a ! ci | a.
        \<exists>f \<in> set files. \<exists>l \<in> set f. a = split TAB (rstrip_nl l) \<and> ci < length a}"
  by (simp add: build_click_map_def click_files_keys)

lemma mkdata_line_click:
  assumes "mkdata_line ti ci bmap m line = Inr (Some (click, weekday, hour))"
  shows "click = (if split TAB (rstrip_nl line) ! 0 @ ''-'' @ split TAB (rstrip_nl line) ! ci
                      \<in> fst ` set bmap then ''1'' else ''0'')"
  using assms
  by (auto simp: mkdata_line_def Let_def map_of_keys split: if_splits sum.splits prod.splits)

lemma mkdata_loop_rows:
  "mkdata_loop ti ci bmap n lines = (out, e) \<Longrightarrow> row \<in> set out \<Longrightarrow>
   \<exists>line \<in> set lines. \<exists>m d. mkdata_line ti ci bmap m line = Inr (Some d) \<and> row = write_row d line"
proof (induction lines arbitrary: n out e)
  case Nil
  then show ?case by simp
next
  case (Cons line ls)
  show ?case
  proof (cases "mkdata_line ti ci bmap n line")
    case (Inl err)
    with Cons.prems show ?thesis by simp
  next
    case (Inr r)
    show ?thesis
    proof (cases r)
      case None
      with Inr Cons.prems have "mkdata_loop ti ci bmap (n + 1) ls = (out, e)" by simp
      from Cons.IH [OF this Cons.prems(2)] show ?thesis by auto
    next
      case (Some d)
      obtain out' e' where rest: "mkdata_loop ti ci bmap (n + 1) ls = (out', e')"
        by (cases "mkdata_loop ti ci bmap (n + 1) ls")
      with Inr Some Cons.prems(1) have out: "out = write_row d line # out'" by simp
      show ?thesis
      proof (cases "row = write_row d line")
        case True
        have "line \<in> set (line # ls)" by simp
        moreover have "mkdata_line ti ci bmap n line = Inr (Some d) \<and> row = write_row d line"
          using Inr Some True by simp
        ultimately show ?thesis by blast
      next
        case False
        with out Cons.prems(2) have "row \<in> set out'" by simp
        from Cons.IH [OF rest this] show ?thesis by auto
      qed
    qed
  qed
qed

lemma mkdata_loop_written:
  "mkdata_loop ti ci bmap n lines = (out, e) \<Longrightarrow>
   \<exists>j \<le> length lines.
      out = List.map_filter
              (\<lambda>(m, line). case mkdata_line ti ci bmap m line of
                               Inr (Some d) \<Rightarrow> Some (write_row d line) | _ \<Rightarrow> None)
              (List.enumerate n (take j lines))
      \<and> (e = None \<longrightarrow> j = length lines)"
proof (induction lines arbitrary: n out e)
  case Nil
  then show ?case by (simp add: List.map_filter_simps)
next
  case (Cons line ls)
  let ?f = "\<lambda>(m, line). case mkdata_line ti ci bmap m line of
                               Inr (Some d) \<Rightarrow> Some (write_row d line) | _ \<Rightarrow> None"
  show ?case
  proof (cases "mkdata_line ti ci bmap n line")
    case (Inl err)
    with Cons.prems have "out = []" "e = Some err" by simp_all
    then have "out = List.map_filter ?f (List.enumerate n (take 0 (line # ls)))
         \<and> (e = None \<longrightarrow> 0 = length (line # ls))"
      by (simp add: List.map_filter_simps)
    then show ?thesis by blast
  next
    case (Inr r)
    show ?thesis
    proof (cases r)
      case None
      with Inr Cons.prems have "mkdata_loop ti ci bmap (n + 1) ls = (out, e)" by simp
      from Cons.IH [OF this] obtain j where j: "j \<le> length ls"
        "out = List.map_filter ?f (List.enumerate (n + 1) (take j ls))"
        "e = None \<longrightarrow> j = length ls"
        by blast
      have "out = List.map_filter ?f (List.enumerate n (take (Suc j) (line # ls)))"
        using j(2) Inr None by (simp add: List.map_filter_simps)
      with j show ?thesis
        by (intro exI [of _ "Suc j"]) simp
    next
      case (Some d)
      obtain out' e' where rest: "mkdata_loop ti ci bmap (n + 1) ls = (out', e')"
        by (cases "mkdata_loop ti ci bmap (n + 1) ls")
      with Inr Some Cons.prems have out: "out = write_row d line # out'" and e: "e = e'"
        by simp_all
      from Cons.IH [OF rest] obtain j where j: "j \<le> length ls"
        "out' = List.map_filter ?f (List.enumerate (n + 1) (take j ls))"
        "e' = None \<longrightarrow> j = length ls"
        by blast
      have "out = List.map_filter ?f (List.enumerate n (take (Suc j) (line # ls)))"
        using j(2) out Inr Some by (simp add: List.map_filter_simps)
      with j e show ?thesis
        by (intro exI [of _ "Suc j"]) simp
    qed
  qed
qed

lemma written_row_eq:
  "(\<lambda>(m, line). case mkdata_line ti ci bmap m line of
                    Inr (Some d) \<Rightarrow> Some (write_row d line) | _ \<Rightarrow> None)
   = (\<lambda>(m, line).
        let arr = split TAB (rstrip_nl line) in
        if length arr \<le> max ti ci then None
        else case derive_time m (arr ! ti) of
               Inl err \<Rightarrow> None
             | Inr (weekday, hour) \<Rightarrow>
                 Some ((if arr ! 0 @ ''-'' @ arr ! ci \<in> fst ` set bmap then ''1'' else ''0'')
                       @ [TAB] @ str weekday @ [TAB] @ hour @ [TAB] @ line))"
  by (auto simp: fun_eq_iff mkdata_line_def write_row_def Let_def map_of_keys
           split: sum.splits prod.splits option.splits)

text \<open>
  C3. In mkdata.py the rows written after the header are, in the order of the input,
  the rows of the impression lines that are retained, those read before the run stops.
  The row of a line is the line itself behind its label, weekday and hour, and the label
  is 1 when the key of that same line (field 0, a hyphen, the creative field) is a key
  of the click map, 0 otherwise. The keys of the click map are the keys of the click-log
  lines that have a creative field.
\<close>

theorem click_label_join:
  assumes "index_of schema ''timestamp'' = Some ti"
      and "index_of schema ''creative'' = Some ci"
      and "mkdata_process_data schema (build_click_map files ci) lines = (out, e)"
  shows "(\<exists>j \<le> length lines.
            out = header_row schema #
              List.map_filter
                (\<lambda>(m, line).
                   let arr = split TAB (rstrip_nl line) in
                   if length arr \<le> max ti ci then None
                   else case derive_time m (arr ! ti) of
                          Inl err \<Rightarrow> None
                        | Inr (weekday, hour) \<Rightarrow>
                            Some ((if arr ! 0 @ ''-'' @ arr ! ci
                                       \<in> fst ` set (build_click_map files ci)
                                   then ''1'' else ''0'')
                                  @ [TAB] @ str weekday @ [TAB] @ hour @ [TAB] @ line))
                (List.enumerate 1 (take j lines))
            \<and> (e = None \<longrightarrow> j = length lines))
       \<and> fst ` set (build_click_map files ci) =
           {a ! 0 @ ''-'' @ a ! ci | a.
              \<exists>f \<in> set files. \<exists>l \<in> set f. a = split TAB (rstrip_nl l) \<and> ci < length a}"
proof -
  let ?bmap = "build_click_map files ci"
  from assms obtain out' where loop: "mkdata_loop ti ci ?bmap 1 lines = (out', e)"
    and out: "out = header_row schema # out'"
    by (auto simp: mkdata_process_data_def split: prod.splits)
  from mkdata_loop_written [OF loop] obtain j where j: "j \<le> length lines"
    "out' = List.map_filter
              (\<lambda>(m, line). case mkdata_line ti ci ?bmap m line of
                               Inr (Some d) \<Rightarrow> Some (write_row d line) | _ \<Rightarrow> None)
              (List.enumerate 1 (take j lines))"
    "e = None \<longrightarrow> j = length lines"
    by blast
  from j(2) have "out' = List.map_filter
                (\<lambda>(m, line).
                   let arr = split TAB (rstrip_nl line) in
                   if length arr \<le> max ti ci then None
                   else case derive_time m (arr ! ti) of
                          Inl err \<Rightarrow> None
                        | Inr (weekday, hour) \<Rightarrow>
                            Some ((if arr ! 0 @ ''-'' @ arr ! ci \<in> fst ` set ?bmap
                                   then ''1'' else ''0'')
                                  @ [TAB] @ str weekday @ [TAB] @ hour @ [TAB] @ line))
                (List.enumerate 1 (take j lines))"
    unfolding written_row_eq .
  with j(1,3) out build_click_map_keys [of files ci] show ?thesis
    by blast
qed

lemma join_example_run:
  "mkdata_process_data [''bidid'', ''timestamp'', ''creative'']
     (build_click_map [[join [TAB] [''b1'', ''20130615101500'', ''c1''] @ [NL]]] 2)
     [join [TAB] [''b1'', ''20130615101500'', ''c1''] @ [NL],
      join [TAB] [''b2'', ''20130615101500'', ''c1''] @ [NL]]
   = ([header_row [''bidid'', ''timestamp'', ''creative''],
       join [TAB] [''1'', ''6'', ''10'', ''b1'', ''20130615101500'', ''c1''] @ [NL],
       join [TAB] [''0'', ''6'', ''10'', ''b2'', ''20130615101500'', ''c1''] @ [NL]], None)"
  by code_simp

lemma join_example_creative: "index_of [''bidid'', ''timestamp'', ''creative''] ''creative'' = Some 2"
  by code_simp

lemma join_example_timestamp: "index_of [''bidid'', ''timestamp'', ''creative''] ''timestamp'' = Some 1"
  by code_simp

text \<open>
  The theorem on the schema of three columns, one click and two impressions, the first
  of them clicked.
\<close>

theorem click_label_join_witness:
  "\<exists>j \<le> length [join [TAB] [''b1'', ''20130615101500'', ''c1''] @ [NL],
                   join [TAB] [''b2'', ''20130615101500'', ''c1''] @ [NL]].
     [header_row [''bidid'', ''timestamp'', ''creative''],
      join [TAB] [''1'', ''6'', ''10'', ''b1'', ''20130615101500'', ''c1''] @ [NL],
      join [TAB] [''0'', ''6'', ''10'', ''b2'', ''20130615101500'', ''c1''] @ [NL]]
     = header_row [''bidid'', ''timestamp'', ''creative''] #
         List.map_filter
           (\<lambda>(m, line).
              let arr = split TAB (rstrip_nl line) in
              if length arr \<le> max 1 2 then None
              else case derive_time m (arr ! 1) of
                     Inl err \<Rightarrow> None
                   | Inr (weekday, hour) \<Rightarrow>
                       Some ((if arr ! 0 @ ''-'' @ arr ! 2
                                  \<in> fst ` set (build_click_map
                                        [[join [TAB] [''b1'', ''20130615101500'', ''c1''] @ [NL]]] 2)
                              then ''1'' else ''0'')
                             @ [TAB] @ str weekday @ [TAB] @ hour @ [TAB] @ line))
           (List.enumerate 1
              (take j [join [TAB] [''b1'', ''20130615101500'', ''c1''] @ [NL],
                       join [TAB] [''b2'', ''20130615101500'', ''c1''] @ [NL]]))
     \<and> j = 2"
proof -
  from click_label_join [OF join_example_timestamp join_example_creative join_example_run]
  obtain j where j:
    "j \<le> length [join [TAB] [''b1'', ''20130615101500'', ''c1''] @ [NL],
                 join [TAB] [''b2'', ''20130615101500'', ''c1''] @ [NL]]"
    "[header_row [''bidid'', ''timestamp'', ''creative''],
      join [TAB] [''1'', ''6'', ''10'', ''b1'', ''20130615101500'', ''c1''] @ [NL],
      join [TAB] [''0'', ''6'', ''10'', ''b2'', ''20130615101500'', ''c1''] @ [NL]]
     = header_row [''bidid'', ''timestamp'', ''creative''] #
         List.map_filter
           (\<lambda>(m, line).
              let arr = split TAB (rstrip_nl line) in
              if length arr \<le> max 1 2 then None
              else case derive_time m (arr ! 1) of
                     Inl err \<Rightarrow> None
                   | Inr (weekday, hour) \<Rightarrow>
                       Some ((if arr ! 0 @ ''-'' @ arr ! 2
                                  \<in> fst ` set (build_click_map
                                        [[join [TAB] [''b1'', ''20130615101500'', ''c1''] @ [NL]]] 2)
                              then ''1'' else ''0'')
                             @ [TAB] @ str weekday @ [TAB] @ hour @ [TAB] @ line))
           (List.enumerate 1
              (take j [join [TAB] [''b1'', ''20130615101500'', ''c1''] @ [NL],
                       join [TAB] [''b2'', ''20130615101500'', ''c1''] @ [NL]]))"
    "j = length [join [TAB] [''b1'', ''20130615101500'', ''c1''] @ [NL],
                 join [TAB] [''b2'', ''20130615101500'', ''c1''] @ [NL]]"
    by blast
  from j(3) have "j = 2" by simp
  with j(1,2) show ?thesis by blast
qed

section \<open>The timestamp block\<close>

lemma derive_time_short:
  "length ts < 8 \<Longrightarrow> derive_time n ts = Inl (InvalidTimestampFormat n ts)"
  by (simp add: derive_time_def)

lemma derive_time_bad_date:
  assumes "8 \<le> length ts" and "\<not> date_part_ok ts"
  shows "\<exists>c. derive_time n ts = Inl (FailedToParseTimestamp n ts c)"
  using assms by (auto simp: derive_time_def date_part_ok_def split: option.splits)

lemma derive_time_ok:
  assumes "derive_time n ts = Inr (w, h)"
  shows "8 \<le> length ts \<and> date_part_ok ts
       \<and> h = (if length ts > 10 then take 2 (drop 8 ts) else ''00'')"
  using assms by (auto simp: derive_time_def date_part_ok_def split: option.splits if_splits)

lemma derive_time_accepts:
  assumes "8 \<le> length ts" and "date_part_ok ts"
  shows "\<exists>w. derive_time n ts = Inr (w, if 10 < length ts then take 2 (drop 8 ts) else ''00'')"
  using assms by (auto simp: derive_time_def date_part_ok_def split: option.splits)

lemma mkdata_line_time:
  "max ti ci < length (split TAB (rstrip_nl line)) \<Longrightarrow>
   mkdata_line ti ci bmap n line =
     (case derive_time n (split TAB (rstrip_nl line) ! ti) of
        Inl e \<Rightarrow> Inl e
      | Inr (w, h) \<Rightarrow> Inr (Some (if map_of bmap (split TAB (rstrip_nl line) ! 0 @ ''-'' @
                                   split TAB (rstrip_nl line) ! ci) \<noteq> None then ''1'' else ''0'', w, h)))"
  by (auto simp: mkdata_line_def Let_def split: sum.splits prod.splits)

lemma mktest_line_time:
  "2 \<le> length (split TAB (rstrip_nl line)) \<Longrightarrow> ti < length (split TAB (rstrip_nl line)) \<Longrightarrow>
   mktest_line ti n line =
     (case derive_time n (split TAB (rstrip_nl line) ! ti) of
        Inl e \<Rightarrow> Inl e
      | Inr (w, h) \<Rightarrow> Inr (Some (if split TAB (rstrip_nl line) !
                                   (length (split TAB (rstrip_nl line)) - 2) = ''0''
                                then ''0'' else ''1'', w, h)))"
  by (auto simp: mktest_line_def Let_def split: sum.splits prod.splits)

lemma mkdata_line_retained:
  "mkdata_line ti ci bmap n line = Inr (Some (c, w, h)) \<Longrightarrow>
   derive_time n (split TAB (rstrip_nl line) ! ti) = Inr (w, h)"
  by (auto simp: mkdata_line_def Let_def split: if_splits sum.splits prod.splits)

lemma mktest_line_retained:
  "mktest_line ti n line = Inr (Some (c, w, h)) \<Longrightarrow>
   derive_time n (split TAB (rstrip_nl line) ! ti) = Inr (w, h)"
  by (auto simp: mktest_line_def Let_def split: if_splits sum.splits prod.splits)

section \<open>Timestamps, hours and the label of a test row\<close>

lemma mkdata_loop_error:
  "k < length ls \<Longrightarrow> mkdata_line ti ci bmap (m + k) (ls ! k) = Inl err \<Longrightarrow>
   snd (mkdata_loop ti ci bmap m ls) \<noteq> None"
proof (induction ls arbitrary: m k)
  case Nil
  then show ?case by simp
next
  case (Cons line ls)
  show ?case
  proof (cases k)
    case 0
    with Cons.prems show ?thesis by simp
  next
    case (Suc j)
    with Cons.prems have j: "j < length ls" "mkdata_line ti ci bmap ((m + 1) + j) (ls ! j) = Inl err"
      by simp_all
    from Cons.IH [OF j] show ?thesis
      by (auto split: sum.splits option.splits prod.splits)
  qed
qed

lemma mktest_loop_error:
  "k < length ls \<Longrightarrow> mktest_line ti (m + k) (ls ! k) = Inl err \<Longrightarrow>
   snd (mktest_loop ti m ls) \<noteq> None"
proof (induction ls arbitrary: m k)
  case Nil
  then show ?case by simp
next
  case (Cons line ls)
  show ?case
  proof (cases k)
    case 0
    with Cons.prems show ?thesis by simp
  next
    case (Suc j)
    with Cons.prems have j: "j < length ls" "mktest_line ti ((m + 1) + j) (ls ! j) = Inl err"
      by simp_all
    from Cons.IH [OF j] show ?thesis
      by (auto split: sum.splits option.splits prod.splits)
  qed
qed

text \<open>
  C8, as amended. In mkdata.py and mktest.py a line long enough to be retained fails
  with an error that carries the line number and the raw timestamp when the timestamp
  has fewer than 8 characters, or when its first eight characters do not give a date;
  the loop then stops with an error. A retained row has a timestamp of at least 8
  characters whose first eight characters give a date, and every such timestamp is
  retained: the characters after the eighth are not checked, the hour being the ninth
  and tenth character as they stand when there are more than ten, \<open>00\<close> otherwise.
  The expressions of the DuckDB pipeline always have a value: the hour is \<open>00\<close> for a
  null timestamp or one of fewer than ten characters, and the weekday is \<open>0\<close> when the
  timestamp does not parse.
\<close>

theorem timestamp_errors:
  assumes "arr = split TAB (rstrip_nl line)" and "ts = arr ! ti"
  shows "(max ti ci < length arr \<and> length ts < 8 \<longrightarrow>
            mkdata_line ti ci bmap n line = Inl (InvalidTimestampFormat n ts))
       \<and> (max ti ci < length arr \<and> 8 \<le> length ts \<and> \<not> date_part_ok ts \<longrightarrow>
            (\<exists>c. mkdata_line ti ci bmap n line = Inl (FailedToParseTimestamp n ts c)))
       \<and> (2 \<le> length arr \<and> ti < length arr \<and> length ts < 8 \<longrightarrow>
            mktest_line ti n line = Inl (InvalidTimestampFormat n ts))
       \<and> (2 \<le> length arr \<and> ti < length arr \<and> 8 \<le> length ts \<and> \<not> date_part_ok ts \<longrightarrow>
            (\<exists>c. mktest_line ti n line = Inl (FailedToParseTimestamp n ts c)))
       \<and> (\<forall>c w h. mkdata_line ti ci bmap n line = Inr (Some (c, w, h)) \<longrightarrow>
            8 \<le> length ts \<and> date_part_ok ts)
       \<and> (\<forall>c w h. mktest_line ti n line = Inr (Some (c, w, h)) \<longrightarrow>
            8 \<le> length ts \<and> date_part_ok ts)
       \<and> (\<forall>k ls m err. k < length ls \<and> mkdata_line ti ci bmap (m + k) (ls ! k) = Inl err \<longrightarrow>
            snd (mkdata_loop ti ci bmap m ls) \<noteq> None)
       \<and> (\<forall>k ls m err. k < length ls \<and> mktest_line ti (m + k) (ls ! k) = Inl err \<longrightarrow>
            snd (mktest_loop ti m ls) \<noteq> None)
       \<and> message_head (InvalidTimestampFormat n ts) =
           ''Invalid timestamp format at line '' @ str n @ '': '' @ [CHR 0x27] @ ts @ [CHR 0x27]
             @ '' (expected at least 8 characters)''
       \<and> (\<forall>c. message_head (FailedToParseTimestamp n ts c) =
           ''Failed to parse timestamp at line '' @ str n @ '': '' @ [CHR 0x27] @ ts @ [CHR 0x27]
             @ '' - '')
       \<and> (max ti ci < length arr \<and> 8 \<le> length ts \<and> date_part_ok ts \<longrightarrow>
            (\<exists>click w. mkdata_line ti ci bmap n line =
               Inr (Some (click, w, if 10 < length ts then take 2 (drop 8 ts) else ''00''))))
       \<and> (2 \<le> length arr \<and> ti < length arr \<and> 8 \<le> length ts \<and> date_part_ok ts \<longrightarrow>
            (\<exists>click w. mktest_line ti n line =
               Inr (Some (click, w, if 10 < length ts then take 2 (drop 8 ts) else ''00''))))
       \<and> hour_expr v =
           Some (case v of None \<Rightarrow> ''00''
                 | Some t \<Rightarrow> if 10 \<le> length t then take 2 (drop 8 t) else ''00'')
       \<and> weekday_expr parsed_w v =
           Some (case parsed_w v of None \<Rightarrow> ''0'' | Some x \<Rightarrow> x)"
proof -
  have a: "max ti ci < length arr \<and> length ts < 8 \<longrightarrow>
            mkdata_line ti ci bmap n line = Inl (InvalidTimestampFormat n ts)"
    using assms by (simp add: mkdata_line_time derive_time_short)
  have b: "max ti ci < length arr \<and> 8 \<le> length ts \<and> \<not> date_part_ok ts \<longrightarrow>
            (\<exists>c. mkdata_line ti ci bmap n line = Inl (FailedToParseTimestamp n ts c))"
  proof
    assume h: "max ti ci < length arr \<and> 8 \<le> length ts \<and> \<not> date_part_ok ts"
    then obtain c where "derive_time n ts = Inl (FailedToParseTimestamp n ts c)"
      using derive_time_bad_date [of ts n] by blast
    with h assms show "\<exists>c. mkdata_line ti ci bmap n line = Inl (FailedToParseTimestamp n ts c)"
      by (simp add: mkdata_line_time)
  qed
  have c: "2 \<le> length arr \<and> ti < length arr \<and> length ts < 8 \<longrightarrow>
            mktest_line ti n line = Inl (InvalidTimestampFormat n ts)"
    using assms by (simp add: mktest_line_time derive_time_short)
  have d: "2 \<le> length arr \<and> ti < length arr \<and> 8 \<le> length ts \<and> \<not> date_part_ok ts \<longrightarrow>
            (\<exists>c. mktest_line ti n line = Inl (FailedToParseTimestamp n ts c))"
  proof
    assume h: "2 \<le> length arr \<and> ti < length arr \<and> 8 \<le> length ts \<and> \<not> date_part_ok ts"
    then obtain c where "derive_time n ts = Inl (FailedToParseTimestamp n ts c)"
      using derive_time_bad_date [of ts n] by blast
    with h assms show "\<exists>c. mktest_line ti n line = Inl (FailedToParseTimestamp n ts c)"
      by (simp add: mktest_line_time)
  qed
  have e: "\<forall>c w h. mkdata_line ti ci bmap n line = Inr (Some (c, w, h)) \<longrightarrow>
            8 \<le> length ts \<and> date_part_ok ts"
    using assms mkdata_line_retained derive_time_ok by blast
  have f: "\<forall>c w h. mktest_line ti n line = Inr (Some (c, w, h)) \<longrightarrow>
            8 \<le> length ts \<and> date_part_ok ts"
    using assms mktest_line_retained derive_time_ok by blast
  have g: "\<forall>k ls m err. k < length ls \<and> mkdata_line ti ci bmap (m + k) (ls ! k) = Inl err \<longrightarrow>
            snd (mkdata_loop ti ci bmap m ls) \<noteq> None"
    using mkdata_loop_error by blast
  have h: "\<forall>k ls m err. k < length ls \<and> mktest_line ti (m + k) (ls ! k) = Inl err \<longrightarrow>
            snd (mktest_loop ti m ls) \<noteq> None"
    using mktest_loop_error by blast
  have i: "message_head (InvalidTimestampFormat n ts) =
           ''Invalid timestamp format at line '' @ str n @ '': '' @ [CHR 0x27] @ ts @ [CHR 0x27]
             @ '' (expected at least 8 characters)''"
    by simp
  have j: "\<forall>c. message_head (FailedToParseTimestamp n ts c) =
           ''Failed to parse timestamp at line '' @ str n @ '': '' @ [CHR 0x27] @ ts @ [CHR 0x27]
             @ '' - ''"
    by simp
  have k: "max ti ci < length arr \<and> 8 \<le> length ts \<and> date_part_ok ts \<longrightarrow>
            (\<exists>click w. mkdata_line ti ci bmap n line =
               Inr (Some (click, w, if 10 < length ts then take 2 (drop 8 ts) else ''00'')))"
  proof
    assume hyp: "max ti ci < length arr \<and> 8 \<le> length ts \<and> date_part_ok ts"
    then obtain w where "derive_time n ts =
        Inr (w, if 10 < length ts then take 2 (drop 8 ts) else ''00'')"
      using derive_time_accepts [of ts n] by blast
    with hyp assms show "\<exists>click w. mkdata_line ti ci bmap n line =
               Inr (Some (click, w, if 10 < length ts then take 2 (drop 8 ts) else ''00''))"
      by (simp add: mkdata_line_time)
  qed
  have l: "2 \<le> length arr \<and> ti < length arr \<and> 8 \<le> length ts \<and> date_part_ok ts \<longrightarrow>
            (\<exists>click w. mktest_line ti n line =
               Inr (Some (click, w, if 10 < length ts then take 2 (drop 8 ts) else ''00'')))"
  proof
    assume hyp: "2 \<le> length arr \<and> ti < length arr \<and> 8 \<le> length ts \<and> date_part_ok ts"
    then obtain w where "derive_time n ts =
        Inr (w, if 10 < length ts then take 2 (drop 8 ts) else ''00'')"
      using derive_time_accepts [of ts n] by blast
    with hyp assms show "\<exists>click w. mktest_line ti n line =
               Inr (Some (click, w, if 10 < length ts then take 2 (drop 8 ts) else ''00''))"
      by (simp add: mktest_line_time)
  qed
  have duck_hour: "hour_expr v =
           Some (case v of None \<Rightarrow> ''00''
                 | Some t \<Rightarrow> if 10 \<le> length t then take 2 (drop 8 t) else ''00'')"
    by (cases v)
      (simp_all add: hour_expr_def sql_case_when_def sql_ge_def sql_length_def sql_substr_def)
  have duck_weekday: "weekday_expr parsed_w v =
           Some (case parsed_w v of None \<Rightarrow> ''0'' | Some x \<Rightarrow> x)"
    by (simp add: weekday_expr_def sql_coalesce_def split: option.splits)
  from a b c d e f g h i j k l duck_hour duck_weekday show ?thesis by blast
qed

lemma short_timestamp_fields:
  "split TAB (rstrip_nl (join [TAB] [''b'', ''2013'', ''c''] @ [NL])) = [''b'', ''2013'', ''c'']"
  by code_simp

text \<open>The theorem on line 7 of a file, a line whose timestamp is \<open>2013\<close>.\<close>

theorem timestamp_errors_witness:
  "mkdata_line 1 2 [] 7 (join [TAB] [''b'', ''2013'', ''c''] @ [NL]) =
     Inl (InvalidTimestampFormat 7 ''2013'')
   \<and> mktest_line 1 7 (join [TAB] [''b'', ''2013'', ''c''] @ [NL]) =
     Inl (InvalidTimestampFormat 7 ''2013'')"
proof -
  note inst = timestamp_errors [OF refl refl,
      of 1 2 "join [TAB] [''b'', ''2013'', ''c''] @ [NL]" "[]" 7]
  from inst have "max 1 2 < length (split TAB (rstrip_nl (join [TAB] [''b'', ''2013'', ''c''] @ [NL])))
      \<and> length (split TAB (rstrip_nl (join [TAB] [''b'', ''2013'', ''c''] @ [NL])) ! 1) < 8 \<longrightarrow>
    mkdata_line 1 2 [] 7 (join [TAB] [''b'', ''2013'', ''c''] @ [NL]) =
      Inl (InvalidTimestampFormat 7
        (split TAB (rstrip_nl (join [TAB] [''b'', ''2013'', ''c''] @ [NL])) ! 1))"
    by blast
  then have a: "mkdata_line 1 2 [] 7 (join [TAB] [''b'', ''2013'', ''c''] @ [NL]) =
     Inl (InvalidTimestampFormat 7 ''2013'')"
    unfolding short_timestamp_fields by simp
  from inst have "2 \<le> length (split TAB (rstrip_nl (join [TAB] [''b'', ''2013'', ''c''] @ [NL])))
      \<and> 1 < length (split TAB (rstrip_nl (join [TAB] [''b'', ''2013'', ''c''] @ [NL])))
      \<and> length (split TAB (rstrip_nl (join [TAB] [''b'', ''2013'', ''c''] @ [NL])) ! 1) < 8 \<longrightarrow>
    mktest_line 1 7 (join [TAB] [''b'', ''2013'', ''c''] @ [NL]) =
      Inl (InvalidTimestampFormat 7
        (split TAB (rstrip_nl (join [TAB] [''b'', ''2013'', ''c''] @ [NL])) ! 1))"
    by blast
  then have b: "mktest_line 1 7 (join [TAB] [''b'', ''2013'', ''c''] @ [NL]) =
     Inl (InvalidTimestampFormat 7 ''2013'')"
    unfolding short_timestamp_fields by simp
  from a b show ?thesis by blast
qed

text \<open>
  The DuckDB expressions give the hour \<open>00\<close> and the weekday \<open>0\<close> for the timestamp
  \<open>2013\<close>, which does not parse, and mkdata.py retains a row whose timestamp has the
  letters \<open>zz\<close> where the hour stands.
\<close>

theorem timestamp_errors_counterexample:
  "hour_expr (Some ''2013'') = Some ''00''
   \<and> weekday_expr (\<lambda>ts. None) (Some ''2013'') = Some ''0''
   \<and> mkdata_line 1 2 [] 7 (join [TAB] [''b'', ''20130601zz0000'', ''c''] @ [NL]) =
       Inr (Some (''0'', 6, ''zz''))"
proof -
  have a: "hour_expr (Some ''2013'') = Some ''00''" by code_simp
  have b: "weekday_expr (\<lambda>ts. None) (Some ''2013'') = Some ''0''"
    by (simp add: weekday_expr_def sql_coalesce_def)
  have c: "mkdata_line 1 2 [] 7 (join [TAB] [''b'', ''20130601zz0000'', ''c''] @ [NL]) =
       Inr (Some (''0'', 6, ''zz''))"
    by code_simp
  from a b c show ?thesis by blast
qed

text \<open>
  C5. In mkdata.py and mktest.py the hour of a retained row is the two characters at
  offsets 8 and 9 only when the timestamp has more than 10 characters; for a timestamp
  of exactly 10 characters it is \<open>00\<close>, where the DuckDB expression gives the two
  characters.
\<close>

theorem hour_of_timestamp:
  assumes "derive_time n ts = Inr (w, h)"
  shows "(10 < length ts \<longrightarrow> h = take 2 (drop 8 ts))
       \<and> (length ts = 10 \<longrightarrow> h = ''00'')
       \<and> (length ts < 10 \<longrightarrow> h = ''00'')
       \<and> hour_expr (Some ts) = Some (if 10 \<le> length ts then take 2 (drop 8 ts) else ''00'')"
  using derive_time_ok [OF assms]
  by (simp add: hour_expr_def sql_case_when_def sql_ge_def sql_length_def sql_substr_def)

lemma ten_characters_run: "derive_time 1 ''2013060112'' = Inr (6, ''00'')"
  by code_simp

text \<open>The theorem on the timestamp \<open>2013060112\<close>, the first of June 2013 at noon.\<close>

theorem hour_of_timestamp_witness:
  "derive_time 1 ''2013060112'' = Inr (6, ''00'')
   \<and> hour_expr (Some ''2013060112'') = Some ''12''"
proof -
  from hour_of_timestamp [OF ten_characters_run]
  have "hour_expr (Some ''2013060112'') =
          Some (if 10 \<le> length ''2013060112'' then take 2 (drop 8 ''2013060112'') else ''00'')"
    by blast
  then have "hour_expr (Some ''2013060112'') = Some ''12''"
    by simp
  with ten_characters_run show ?thesis by blast
qed

text \<open>
  C4, as amended. The DuckDB expression gives the label 0 exactly when the nclick value
  is not null and, trimmed of its spaces, is \<open>0\<close>, and the label 1 otherwise. mktest.py
  gives the label 0 exactly when the last field but one of the line, as it stands, is
  \<open>0\<close>.
\<close>

theorem nclick_label:
  "(click_expr v = Some ''0'' \<longleftrightarrow> (\<exists>s. v = Some s \<and> sql_trim (Some s) = Some ''0''))
   \<and> (click_expr v = Some ''0'' \<or> click_expr v = Some ''1'')
   \<and> (\<forall>c w h. mktest_line ti n line = Inr (Some (c, w, h)) \<longrightarrow>
        c = (if split TAB (rstrip_nl line) ! (length (split TAB (rstrip_nl line)) - 2) = ''0''
             then ''0'' else ''1''))"
proof -
  have a: "click_expr v = Some ''0'' \<longleftrightarrow> (\<exists>s. v = Some s \<and> sql_trim (Some s) = Some ''0'')"
  proof (cases v)
    case None
    then show ?thesis
      by (simp add: click_expr_def sql_case_when_def sql_eq_def sql_nullif_def sql_trim_def)
  next
    case (Some s)
    obtain t where t: "sql_trim (Some s) = Some t"
      by (simp add: sql_trim_def)
    show ?thesis
      unfolding Some click_expr_def
      by (auto simp: t sql_case_when_def sql_eq_def sql_nullif_def)
  qed
  have b: "click_expr v = Some ''0'' \<or> click_expr v = Some ''1''"
    by (simp add: click_expr_def sql_case_when_def)
  have c: "\<forall>c w h. mktest_line ti n line = Inr (Some (c, w, h)) \<longrightarrow>
        c = (if split TAB (rstrip_nl line) ! (length (split TAB (rstrip_nl line)) - 2) = ''0''
             then ''0'' else ''1'')"
    by (auto simp: mktest_line_def Let_def split: if_splits sum.splits prod.splits)
  from a b c show ?thesis by blast
qed

lemma trim_example: "sql_trim (Some '' 0 '') = Some ''0''"
  by code_simp

text \<open>The theorem on the nclick value of a zero between two spaces.\<close>

theorem nclick_label_witness:
  "sql_trim (Some '' 0 '') = Some ''0'' \<and> click_expr (Some '' 0 '') = Some ''0''"
proof -
  from nclick_label [of "Some '' 0 ''"]
  have "click_expr (Some '' 0 '') = Some ''0'' \<longleftrightarrow>
          (\<exists>s. Some '' 0 '' = Some s \<and> sql_trim (Some s) = Some ''0'')"
    by blast
  with trim_example show ?thesis by blast
qed

text \<open>
  A test line whose nclick field is a space and a zero: trimmed, the field is \<open>0\<close>,
  and the DuckDB expression gives the label 0, but mktest.py gives the label 1.
\<close>

theorem nclick_label_counterexample:
  "strip '' 0'' = ''0''
   \<and> click_expr (Some '' 0'') = Some ''0''
   \<and> mktest_line 1 1 (join [TAB] [''b'', ''20130615101500'', '' 0'', ''0''] @ [NL]) =
       Inr (Some (''1'', 6, ''10''))"
proof -
  have a: "strip '' 0'' = ''0''" by code_simp
  have b: "click_expr (Some '' 0'') = Some ''0''" by code_simp
  have c: "mktest_line 1 1 (join [TAB] [''b'', ''20130615101500'', '' 0'', ''0''] @ [NL]) =
       Inr (Some (''1'', 6, ''10''))"
    by code_simp
  from a b c show ?thesis by blast
qed

section \<open>splitadvertisers.py: one file per advertiser\<close>




















end
